theory Spec2Isabelle
  imports Complex_Main
begin

section \<open>JavaScript values\<close>

text \<open>
  The values that the store module \<^verbatim>\<open>db.js\<close> reads from its callers and keeps in its
  tables. Finite numbers are exact rationals: the module never computes with a field
  value, it only tests it for truthiness, compares it with \<^verbatim>\<open>===\<close> and serialises it, so
  the rounding of a decimal literal plays no role; the not-a-number value and the two
  infinities are separate constructors because serialisation and truthiness treat them
  differently. Negative zero is identified with zero, as \<^verbatim>\<open>===\<close> does. Property values are
  primitive values, as the forms of the user interface supply them; an object or an array
  as a property value is outside the model.
\<close>

datatype jsval =
    Undefined
  | Null
  | Bool bool
  | Num rat
  | NaN
  | PosInfinity
  | NegInfinity
  | Str string

text \<open>ToBoolean: what \<^verbatim>\<open>a || b\<close> tests.\<close>

fun truthy :: "jsval \<Rightarrow> bool" where
  "truthy Undefined = False"
| "truthy Null = False"
| "truthy (Bool b) = b"
| "truthy (Num r) = (r \<noteq> 0)"
| "truthy NaN = False"
| "truthy PosInfinity = True"
| "truthy NegInfinity = True"
| "truthy (Str s) = (s \<noteq> [])"

text \<open>\<^verbatim>\<open>a || b\<close>\<close>

definition js_or :: "jsval \<Rightarrow> jsval \<Rightarrow> jsval" where
  "js_or a b = (if truthy a then a else b)"

text \<open>\<^verbatim>\<open>a === b\<close> on primitive values: not-a-number equals nothing, itself included.\<close>

definition strict_eq :: "jsval \<Rightarrow> jsval \<Rightarrow> bool" where
  "strict_eq a b = (a = b \<and> a \<noteq> NaN)"

text \<open>
  What a property value is after \<^verbatim>\<open>JSON.parse(JSON.stringify(...))\<close>: the non-finite numbers
  are written as \<^verbatim>\<open>null\<close>; a property whose value is \<^verbatim>\<open>undefined\<close> is left out of the
  text, and reading a property that is not there gives \<^verbatim>\<open>undefined\<close> again.
\<close>

fun json_value :: "jsval \<Rightarrow> jsval" where
  "json_value NaN = Null"
| "json_value PosInfinity = Null"
| "json_value NegInfinity = Null"
| "json_value v = v"

section \<open>Objects, records and the persistence medium\<close>

text \<open>
  An input object is read only through its properties: \<^verbatim>\<open>data.k\<close> is \<open>data k\<close>, and a
  property that is absent reads as \<open>Undefined\<close>.
\<close>

type_synonym obj = "string \<Rightarrow> jsval"

text \<open>An object literal \<^verbatim>\<open>{k1: v1, k2: v2, ...}\<close> with distinct keys.\<close>

definition literal :: "(string \<times> jsval) list \<Rightarrow> obj" where
  "literal kvs = (\<lambda>k. case map_of kvs k of None \<Rightarrow> Undefined | Some v \<Rightarrow> v)"

text \<open>
  A stored record: its \<^verbatim>\<open>id\<close>, which is always a number made by \<^verbatim>\<open>getNextId\<close>, a double
  that is a nonnegative integer, and its other properties. Every integer up to \<open>2^53\<close>
  is a double; beyond it the doubles are the even integers up to \<open>2^54\<close>, then the
  multiples of 4, and so on. JSON writes and reads such a number exactly.
\<close>

record item =
  item_id :: nat
  props :: obj

text \<open>\<^verbatim>\<open>item.id\<close> as a value.\<close>

definition idval :: "item \<Rightarrow> jsval" where
  "idval r = Num (of_nat (item_id r))"

definition json_item :: "item \<Rightarrow> item" where
  "json_item r = r\<lparr>props := (\<lambda>k. json_value (props r k))\<rparr>"

text \<open>The constant \<^verbatim>\<open>TABLES\<close>: the four keys of \<^verbatim>\<open>localStorage\<close> that the module uses.\<close>

datatype table = CellModels | BatteryPacks | Cars | CarBatteryPacks

text \<open>
  \<^verbatim>\<open>localStorage\<close> restricted to these keys. \<open>None\<close> is a key that is not there
  (\<^verbatim>\<open>getItem\<close> returns \<^verbatim>\<open>null\<close>); \<open>Some d\<close> is the text \<^verbatim>\<open>JSON.stringify(d)\<close>, kept as the
  record list \<open>d\<close> it was written from. Reading the text back with \<^verbatim>\<open>JSON.parse\<close> gives
  \<open>json_item\<close> of each record, so what a table holds is always observed through
  \<open>getTable\<close>.
\<close>

type_synonym store = "table \<Rightarrow> item list option"

definition empty_store :: store where
  "empty_store = (\<lambda>t. None)"

datatype error =
    CellModelNotFound
  | CellModelReferenced
  | InvalidCellModelId
  | BatteryPackNotFound
  | BatteryPackReferenced
  | CarNotFound
  | CarReferenced
  | InvalidCarId
  | InvalidBatteryPackId
  | RelationNotFound

text \<open>The text of each \<^verbatim>\<open>new Error(...)\<close> that the module throws.\<close>

fun message :: "error \<Rightarrow> string" where
  "message CellModelNotFound = ''Cell model not found''"
| "message CellModelReferenced = ''Cannot delete cell model: it is referenced by battery packs''"
| "message InvalidCellModelId = ''Invalid cellModelId: cell model does not exist''"
| "message BatteryPackNotFound = ''Battery pack not found''"
| "message BatteryPackReferenced =
     ''Cannot delete battery pack: it is referenced by car-battery relations''"
| "message CarNotFound = ''Car not found''"
| "message CarReferenced = ''Cannot delete car: it is referenced by car-battery relations''"
| "message InvalidCarId = ''Invalid carId: car does not exist''"
| "message InvalidBatteryPackId = ''Invalid batteryPackId: battery pack does not exist''"
| "message RelationNotFound = ''Relation not found''"

text \<open>The three classes of failure that the specification distinguishes.\<close>

datatype failure = ValidationError | NotFoundError | ConflictError

fun failure_class :: "error \<Rightarrow> failure" where
  "failure_class CellModelNotFound = NotFoundError"
| "failure_class CellModelReferenced = ConflictError"
| "failure_class InvalidCellModelId = ValidationError"
| "failure_class BatteryPackNotFound = NotFoundError"
| "failure_class BatteryPackReferenced = ConflictError"
| "failure_class CarNotFound = NotFoundError"
| "failure_class CarReferenced = ConflictError"
| "failure_class InvalidCarId = ValidationError"
| "failure_class InvalidBatteryPackId = ValidationError"
| "failure_class RelationNotFound = NotFoundError"

section \<open>Helpers of the module\<close>

text \<open>\<^verbatim>\<open>const data = localStorage.getItem(tableName); return data ? JSON.parse(data) : []\<close>\<close>

definition getTable :: "table \<Rightarrow> store \<Rightarrow> item list" where
  "getTable tableName s = (case s tableName of None \<Rightarrow> [] | Some d \<Rightarrow> map json_item d)"

text \<open>\<^verbatim>\<open>localStorage.setItem(tableName, JSON.stringify(data))\<close>\<close>

definition saveTable :: "table \<Rightarrow> item list \<Rightarrow> store \<Rightarrow> store" where
  "saveTable tableName d s = s(tableName := Some d)"

text \<open>\<^verbatim>\<open>Math.max(...ns)\<close> on a list that is not empty.\<close>

definition Math_max :: "nat list \<Rightarrow> nat" where
  "Math_max ns = fold max (tl ns) (hd ns)"

text \<open>
  \<^verbatim>\<open>n + 1\<close> as the addition of doubles gives it for a nonnegative integer double \<open>n\<close>,
  rounding to nearest, ties to even. Below \<open>2^53\<close> the sum is exact. From \<open>2^53\<close> to
  \<open>2^54\<close> the doubles are the even integers, \<open>n + 1\<close> lies halfway between \<open>n\<close> and
  \<open>n + 2\<close>, and the one whose significand (\<open>n div 2\<close>, or \<open>n div 2 + 1\<close>) is even is
  taken; so \<open>2^53 + 1\<close> is \<open>2^53\<close> again. From \<open>2^54\<close> on, \<open>n + 1\<close> is nearer to \<open>n\<close>.
  The argument is always a stored identifier, hence a double.
\<close>

definition js_add_one :: "nat \<Rightarrow> nat" where
  "js_add_one n =
     (if n < 2 ^ 53 then n + 1
      else if n < 2 ^ 54 \<and> odd (n div 2) then n + 2
      else n)"

definition getNextId :: "table \<Rightarrow> store \<Rightarrow> nat" where
  "getNextId tableName s =
     (let items = getTable tableName s
      in if length items = 0 then 1 else js_add_one (Math_max (map item_id items)))"

definition validateFK :: "jsval \<Rightarrow> table \<Rightarrow> store \<Rightarrow> bool" where
  "validateFK fkValue referencedTable s =
     (if fkValue = Null \<or> fkValue = Undefined then True
      else list_ex (\<lambda>item. strict_eq (idval item) fkValue) (getTable referencedTable s))"

text \<open>\<^verbatim>\<open>items.findIndex(p)\<close>; \<open>None\<close> is the result \<open>-1\<close>.\<close>

fun findIndex :: "('a \<Rightarrow> bool) \<Rightarrow> 'a list \<Rightarrow> nat option" where
  "findIndex p [] = None"
| "findIndex p (x # xs) =
     (if p x then Some 0 else map_option Suc (findIndex p xs))"

text \<open>\<^verbatim>\<open>data.k !== undefined ? data.k : items[index].k\<close>\<close>

definition supplied_or_old :: "obj \<Rightarrow> item \<Rightarrow> string \<Rightarrow> jsval" where
  "supplied_or_old d old k = (if d k \<noteq> Undefined then d k else props old k)"

text \<open>
  Every operation takes the store and returns its result, an error where the source
  throws, together with the store as it is when the operation returns or throws.
\<close>

type_synonym 'a outcome = "(error + 'a) \<times> store"

text \<open>\<^verbatim>\<open>list()\<close> and \<^verbatim>\<open>get(id)\<close>, the same code in the four tables.\<close>

definition list_items :: "table \<Rightarrow> store \<Rightarrow> item list" where
  "list_items t s = getTable t s"

definition get_item :: "table \<Rightarrow> jsval \<Rightarrow> store \<Rightarrow> item option" where
  "get_item t i s = (let items = list_items t s in find (\<lambda>item. strict_eq (idval item) i) items)"

section \<open>cellModels\<close>

definition cellModels_create :: "obj \<Rightarrow> store \<Rightarrow> item outcome" where
  "cellModels_create d s =
     (let items = list_items CellModels s;
          newItem = \<lparr>item_id = getNextId CellModels s,
                     props = literal
                       [(''manufacturer'', js_or (d ''manufacturer'') (Str '''')),
                        (''model'', js_or (d ''model'') (Str '''')),
                        (''chemistry'', js_or (d ''chemistry'') (Str '''')),
                        (''nominalVoltage'', js_or (d ''nominalVoltage'') Null),
                        (''nominalCapacityMah'', js_or (d ''nominalCapacityMah'') Null)]\<rparr>
      in (Inr newItem, saveTable CellModels (items @ [newItem]) s))"

definition cellModels_update :: "jsval \<Rightarrow> obj \<Rightarrow> store \<Rightarrow> item outcome" where
  "cellModels_update i d s =
     (let items = list_items CellModels s
      in case findIndex (\<lambda>item. strict_eq (idval item) i) items of
           None \<Rightarrow> (Inl CellModelNotFound, s)
         | Some index \<Rightarrow>
             (let old = items ! index;
                  new = old\<lparr>props := (props old)
                          (''manufacturer'' := supplied_or_old d old ''manufacturer'',
                           ''model'' := supplied_or_old d old ''model'',
                           ''chemistry'' := supplied_or_old d old ''chemistry'',
                           ''nominalVoltage'' := supplied_or_old d old ''nominalVoltage'',
                           ''nominalCapacityMah'' :=
                              supplied_or_old d old ''nominalCapacityMah'')\<rparr>
              in (Inr new, saveTable CellModels (items[index := new]) s)))"

definition cellModels_remove :: "jsval \<Rightarrow> store \<Rightarrow> bool outcome" where
  "cellModels_remove i s =
     (let packs = list_items BatteryPacks s
      in if list_ex (\<lambda>pack. strict_eq (props pack ''cellModelId'') i) packs
         then (Inl CellModelReferenced, s)
         else
           (let items = list_items CellModels s;
                filtered = filter (\<lambda>item. \<not> strict_eq (idval item) i) items
            in if length filtered = length items then (Inl CellModelNotFound, s)
               else (Inr True, saveTable CellModels filtered s)))"

section \<open>batteryPacks\<close>

definition batteryPacks_create :: "obj \<Rightarrow> store \<Rightarrow> item outcome" where
  "batteryPacks_create d s =
     (if \<not> validateFK (d ''cellModelId'') CellModels s then (Inl InvalidCellModelId, s)
      else
        (let items = list_items BatteryPacks s;
             newItem = \<lparr>item_id = getNextId BatteryPacks s,
                        props = literal
                          [(''name'', js_or (d ''name'') (Str '''')),
                           (''totalCapacityKwh'', js_or (d ''totalCapacityKwh'') Null),
                           (''seriesCount'', js_or (d ''seriesCount'') Null),
                           (''parallelCount'', js_or (d ''parallelCount'') Null),
                           (''cellCount'', js_or (d ''cellCount'') Null),
                           (''cellModelId'', js_or (d ''cellModelId'') Null)]\<rparr>
         in (Inr newItem, saveTable BatteryPacks (items @ [newItem]) s)))"

definition batteryPacks_update :: "jsval \<Rightarrow> obj \<Rightarrow> store \<Rightarrow> item outcome" where
  "batteryPacks_update i d s =
     (if d ''cellModelId'' \<noteq> Undefined \<and> \<not> validateFK (d ''cellModelId'') CellModels s
      then (Inl InvalidCellModelId, s)
      else
        (let items = list_items BatteryPacks s
         in case findIndex (\<lambda>item. strict_eq (idval item) i) items of
              None \<Rightarrow> (Inl BatteryPackNotFound, s)
            | Some index \<Rightarrow>
                (let old = items ! index;
                     new = old\<lparr>props := (props old)
                             (''name'' := supplied_or_old d old ''name'',
                              ''totalCapacityKwh'' := supplied_or_old d old ''totalCapacityKwh'',
                              ''seriesCount'' := supplied_or_old d old ''seriesCount'',
                              ''parallelCount'' := supplied_or_old d old ''parallelCount'',
                              ''cellCount'' := supplied_or_old d old ''cellCount'',
                              ''cellModelId'' := supplied_or_old d old ''cellModelId'')\<rparr>
                 in (Inr new, saveTable BatteryPacks (items[index := new]) s))))"

definition batteryPacks_remove :: "jsval \<Rightarrow> store \<Rightarrow> bool outcome" where
  "batteryPacks_remove i s =
     (let relations = list_items CarBatteryPacks s
      in if list_ex (\<lambda>rel. strict_eq (props rel ''batteryPackId'') i) relations
         then (Inl BatteryPackReferenced, s)
         else
           (let items = list_items BatteryPacks s;
                filtered = filter (\<lambda>item. \<not> strict_eq (idval item) i) items
            in if length filtered = length items then (Inl BatteryPackNotFound, s)
               else (Inr True, saveTable BatteryPacks filtered s)))"

section \<open>cars\<close>

definition cars_create :: "obj \<Rightarrow> store \<Rightarrow> item outcome" where
  "cars_create d s =
     (let items = list_items Cars s;
          newItem = \<lparr>item_id = getNextId Cars s,
                     props = literal
                       [(''brand'', js_or (d ''brand'') (Str '''')),
                        (''model'', js_or (d ''model'') (Str '''')),
                        (''trim'', js_or (d ''trim'') Null),
                        (''yearStart'', js_or (d ''yearStart'') Null),
                        (''yearEnd'', js_or (d ''yearEnd'') Null)]\<rparr>
      in (Inr newItem, saveTable Cars (items @ [newItem]) s))"

definition cars_update :: "jsval \<Rightarrow> obj \<Rightarrow> store \<Rightarrow> item outcome" where
  "cars_update i d s =
     (let items = list_items Cars s
      in case findIndex (\<lambda>item. strict_eq (idval item) i) items of
           None \<Rightarrow> (Inl CarNotFound, s)
         | Some index \<Rightarrow>
             (let old = items ! index;
                  new = old\<lparr>props := (props old)
                          (''brand'' := supplied_or_old d old ''brand'',
                           ''model'' := supplied_or_old d old ''model'',
                           ''trim'' := supplied_or_old d old ''trim'',
                           ''yearStart'' := supplied_or_old d old ''yearStart'',
                           ''yearEnd'' := supplied_or_old d old ''yearEnd'')\<rparr>
              in (Inr new, saveTable Cars (items[index := new]) s)))"

definition cars_remove :: "jsval \<Rightarrow> store \<Rightarrow> bool outcome" where
  "cars_remove i s =
     (let relations = list_items CarBatteryPacks s
      in if list_ex (\<lambda>rel. strict_eq (props rel ''carId'') i) relations
         then (Inl CarReferenced, s)
         else
           (let items = list_items Cars s;
                filtered = filter (\<lambda>item. \<not> strict_eq (idval item) i) items
            in if length filtered = length items then (Inl CarNotFound, s)
               else (Inr True, saveTable Cars filtered s)))"

section \<open>carBatteryPacks\<close>

definition carBatteryPacks_create :: "obj \<Rightarrow> store \<Rightarrow> item outcome" where
  "carBatteryPacks_create d s =
     (if \<not> validateFK (d ''carId'') Cars s then (Inl InvalidCarId, s)
      else if \<not> validateFK (d ''batteryPackId'') BatteryPacks s
      then (Inl InvalidBatteryPackId, s)
      else
        (let items = list_items CarBatteryPacks s;
             newItem = \<lparr>item_id = getNextId CarBatteryPacks s,
                        props = literal
                          [(''carId'', d ''carId''),
                           (''batteryPackId'', d ''batteryPackId'')]\<rparr>
         in (Inr newItem, saveTable CarBatteryPacks (items @ [newItem]) s)))"

definition carBatteryPacks_update :: "jsval \<Rightarrow> obj \<Rightarrow> store \<Rightarrow> item outcome" where
  "carBatteryPacks_update i d s =
     (if d ''carId'' \<noteq> Undefined \<and> \<not> validateFK (d ''carId'') Cars s
      then (Inl InvalidCarId, s)
      else if d ''batteryPackId'' \<noteq> Undefined
              \<and> \<not> validateFK (d ''batteryPackId'') BatteryPacks s
      then (Inl InvalidBatteryPackId, s)
      else
        (let items = list_items CarBatteryPacks s
         in case findIndex (\<lambda>item. strict_eq (idval item) i) items of
              None \<Rightarrow> (Inl RelationNotFound, s)
            | Some index \<Rightarrow>
                (let old = items ! index;
                     new = old\<lparr>props := (props old)
                             (''carId'' := supplied_or_old d old ''carId'',
                              ''batteryPackId'' := supplied_or_old d old ''batteryPackId'')\<rparr>
                 in (Inr new, saveTable CarBatteryPacks (items[index := new]) s))))"

definition carBatteryPacks_remove :: "jsval \<Rightarrow> store \<Rightarrow> bool outcome" where
  "carBatteryPacks_remove i s =
     (let items = list_items CarBatteryPacks s;
          filtered = filter (\<lambda>item. \<not> strict_eq (idval item) i) items
      in if length filtered = length items then (Inl RelationNotFound, s)
         else (Inr True, saveTable CarBatteryPacks filtered s))"

section \<open>The public interface, by table\<close>

fun create :: "table \<Rightarrow> obj \<Rightarrow> store \<Rightarrow> item outcome" where
  "create CellModels = cellModels_create"
| "create BatteryPacks = batteryPacks_create"
| "create Cars = cars_create"
| "create CarBatteryPacks = carBatteryPacks_create"

fun update :: "table \<Rightarrow> jsval \<Rightarrow> obj \<Rightarrow> store \<Rightarrow> item outcome" where
  "update CellModels = cellModels_update"
| "update BatteryPacks = batteryPacks_update"
| "update Cars = cars_update"
| "update CarBatteryPacks = carBatteryPacks_update"

fun remove :: "table \<Rightarrow> jsval \<Rightarrow> store \<Rightarrow> bool outcome" where
  "remove CellModels = cellModels_remove"
| "remove BatteryPacks = batteryPacks_remove"
| "remove Cars = cars_remove"
| "remove CarBatteryPacks = carBatteryPacks_remove"

section \<open>The built-in dataset and initialisation\<close>

text \<open>The shapes of the object literals of \<^verbatim>\<open>loadInitialData\<close>.\<close>

definition cell :: "string \<Rightarrow> string \<Rightarrow> string \<Rightarrow> jsval \<Rightarrow> jsval \<Rightarrow> obj" where
  "cell manufacturer model chemistry nominalVoltage nominalCapacityMah =
     literal [(''manufacturer'', Str manufacturer), (''model'', Str model),
              (''chemistry'', Str chemistry), (''nominalVoltage'', nominalVoltage),
              (''nominalCapacityMah'', nominalCapacityMah)]"

definition car :: "string \<Rightarrow> string \<Rightarrow> jsval \<Rightarrow> jsval \<Rightarrow> jsval \<Rightarrow> obj" where
  "car brand model trim yearStart yearEnd =
     literal [(''brand'', Str brand), (''model'', Str model), (''trim'', trim),
              (''yearStart'', yearStart), (''yearEnd'', yearEnd)]"

definition pack :: "string \<Rightarrow> jsval \<Rightarrow> jsval \<Rightarrow> jsval \<Rightarrow> jsval \<Rightarrow> jsval \<Rightarrow> obj" where
  "pack name totalCapacityKwh seriesCount parallelCount cellCount cellModelId =
     literal [(''name'', Str name), (''totalCapacityKwh'', totalCapacityKwh),
              (''seriesCount'', seriesCount), (''parallelCount'', parallelCount),
              (''cellCount'', cellCount), (''cellModelId'', cellModelId)]"

definition rel :: "jsval \<Rightarrow> jsval \<Rightarrow> obj" where
  "rel carId batteryPackId = literal [(''carId'', carId), (''batteryPackId'', batteryPackId)]"

text \<open>The brand name with its one letter outside ASCII, code unit \<open>0xEB\<close>.\<close>

definition Citroen :: string where
  "Citroen = ''Citro'' @ [CHR 0xEB] @ ''n''"

definition cellModelsData :: "obj list" where
  "cellModelsData =
    [cell ''Shenzhen Starax Energy Technology'' ''S28(B28)'' ''Li-ION'' (Num 3.63) (Num 55000),
     cell ''LG'' ''E63'' ''Li-iON'' (Num 3.6) (Num 64800),
     cell ''Panasonic'' ''NCR18650B'' ''Li-ION'' (Num 3.6) (Num 3350),
     cell ''LG'' ''INR21700-M50'' ''Li-ION'' (Num 3.63) Null,
     cell ''Panasonic'' ''NCR21700'' ''Li-ION'' (Num 3.6) (Num 5000),
     cell ''Panasonic'' ''Prismatic PHEV2 - 22Ah'' ''Li-ION'' (Num 3.6) (Num 22000),
     cell ''Panasonic'' ''Prismatic PHEV2 - 25Ah'' ''Li-ION'' (Num 3.6) (Num 25000),
     cell ''Panasonic'' ''Prismatic PHEV2 - 51Ah'' ''Li-ION'' (Num 3.7) (Num 51000),
     cell ''Ennocar'' ''EC-H-Series-INS-G2-100.8'' ''Ni-MH'' (Num 14.4) (Num 6500),
     cell ''Ennocar'' ''EC-T-SERIES-SP-AQUA-7.2V'' ''Ni-MH'' (Num 7.2) (Num 6500),
     cell ''AESC'' ''32,5Ah Pouch'' ''Li-ION'' (Num 3.8) (Num 65000),
     cell ''AESC'' ''43Ah Pouch'' ''Li-ION'' (Num 3.7) (Num 86000),
     cell ''GS Yuasa'' ''LEV40'' ''Li-ION'' (Num 3.75) (Num 40000),
     cell ''GS Yuasa'' ''LEV40N'' ''Li-ION'' (Num 3.75) (Num 40000),
     cell ''GS Yuasa'' ''LEV50'' ''Li-ION'' (Num 3.75) (Num 50000),
     cell ''GS Yuasa'' ''LEV50N'' ''Li-ION'' (Num 3.75) (Num 40000),
     cell ''Samsung SDI'' ''Prismatic 60Ah'' ''Li-ION'' (Num 3.68) (Num 60000),
     cell ''Samsung SDI'' ''Prismatic 94Ah'' ''Li-ION'' (Num 3.68) (Num 94000),
     cell ''Samsung SDI'' ''Prismatic 120Ah'' ''Li-ION'' (Num 3.68) (Num 120000),
     cell ''Toyota'' ''NP2.0'' ''Ni-MH'' (Num 7.2) (Num 6500),
     cell ''Panasonic'' ''NCR2170A'' ''Li-ION'' (Num 3.6) (Num 4800),
     cell ''Panasonic'' ''NCR18650GA'' ''Li-ION'' (Num 3.6) (Num 3500)]"

definition carsData :: "obj list" where
  "carsData =
    [car ''BMW'' ''i3'' Null (Num 2013) (Num 2016),
     car ''BMW'' ''i3'' Null (Num 2016) (Num 2018),
     car ''BMW'' ''i3s'' Null (Num 2017) (Num 2018),
     car Citroen ''C-zero'' Null (Num 2010) (Num 2013),
     car Citroen ''C-zero'' Null (Num 2013) (Num 2016),
     car Citroen ''C-zero'' Null (Num 2016) (Num 2020),
     car ''Hyundai'' ''Kona'' (Str ''64kWh'') (Num 2017) (Num 2023),
     car ''Hyundai'' ''Kona'' (Str ''39.2kWh'') (Num 2017) (Num 2023),
     car ''Mitsubishi'' ''i-MiEV'' Null (Num 2010) (Num 2013),
     car ''Mitsubishi'' ''i-MiEV'' Null (Num 2013) (Num 2016),
     car ''Mitsubishi'' ''i-MiEV'' Null (Num 2016) (Num 2020),
     car ''Mitsubishi'' ''Outlander PHEV'' Null (Num 2013) (Num 2018),
     car ''Mitsubishi'' ''Outlander PHEV'' Null (Num 2018) (Num 2021),
     car ''Mitsubishi'' ''Outlander PHEV'' Null (Num 2021) (Num 2024),
     car ''Nissan'' ''Leaf'' (Str ''24kWh'') (Num 2010) (Num 2016),
     car ''Nissan'' ''Leaf'' (Str ''30kWh'') (Num 2016) (Num 2017),
     car ''Peugeot'' ''iOn'' Null (Num 2010) (Num 2013),
     car ''Peugeot'' ''iOn'' Null (Num 2013) (Num 2016),
     car ''Peugeot'' ''iOn'' Null (Num 2016) (Num 2020),
     car ''Tesla'' ''Model 3'' (Str ''Long Range Performance'') (Num 2019) (Num 2020),
     car ''Tesla'' ''Model 3'' (Str ''Standard Range Plus'') (Num 2019) (Num 2020),
     car ''Tesla'' ''Model S'' (Str ''P85'') (Num 2012) (Num 2014),
     car ''Tesla'' ''Model S'' (Str ''P100D'') (Num 2016) (Num 2019),
     car ''Tesla'' ''Model X'' (Str ''P100D'') (Num 2017) (Num 2019),
     car ''Toyota'' ''Prius'' Null (Num 2000) (Num 2003),
     car ''Toyota'' ''Prius'' Null (Num 2003) (Num 2009),
     car ''Toyota'' ''Prius PHEV'' Null (Num 2012) (Num 2016),
     car ''Toyota'' ''Prius PHEV'' Null (Num 2016) (Num 2022)]"

definition batteryPacksData :: "obj list" where
  "batteryPacksData =
    [pack ''BMW i3 21.6kWh (Samsung 60Ah)'' (Num 21.6) Null Null Null (Num 17),
     pack ''BMW i3 33.2kWh (Samsung 94Ah)'' (Num 33.2) Null Null Null (Num 18),
     pack ((''Citro'' @ [CHR 0xEB] @ ''n C-zero 16kWh (LEV50)'')) (Num 16) Null Null Null (Num 15),
     pack ((''Citro'' @ [CHR 0xEB] @ ''n C-zero 16kWh (LEV50N)'')) (Num 16) Null Null Null (Num 16),
     pack ''Hyundai Kona 64kWh'' (Num 64) Null Null Null (Num 1),
     pack ''Hyundai Kona 39.2kWh'' (Num 39.2) Null Null Null (Num 1),
     pack ''Mitsubishi i-MiEV 16kWh (LEV50)'' (Num 16) Null Null Null (Num 15),
     pack ''Mitsubishi i-MiEV 16kWh (LEV50N)'' (Num 16) Null Null Null (Num 16),
     pack ''Mitsubishi Outlander 12kWh'' (Num 12) Null Null Null (Num 13),
     pack ''Mitsubishi Outlander 13.8kWh'' (Num 13.8) Null Null Null (Num 14),
     pack ''Mitsubishi Outlander 20kWh'' (Num 20) Null Null Null (Num 14),
     pack ''Nissan Leaf 24kWh'' (Num 24) Null Null Null (Num 11),
     pack ''Nissan Leaf 30kWh'' (Num 30) Null Null Null (Num 12),
     pack ''Tesla Model 3 LR 78.8kWh'' (Num 78.8) Null Null Null (Num 21),
     pack ''Tesla Model 3 SR 53.1kWh'' (Num 53.1) Null Null Null (Num 21),
     pack ''Tesla Model S 85kWh'' (Num 85) Null Null Null (Num 3),
     pack ''Tesla Model S 100kWh'' (Num 100) Null Null Null (Num 22),
     pack ''Toyota Prius 1.78kWh'' (Num 1.78) Null Null Null (Num 20),
     pack ''Toyota Prius 1.3kWh'' (Num 1.3) Null Null Null (Num 20),
     pack ''Toyota Prius PHEV 5.2kWh'' (Num 5.2) Null Null Null (Num 6),
     pack ''Toyota Prius PHEV 8.8kWh'' (Num 8.8) Null Null Null (Num 6)]"

definition relations :: "obj list" where
  "relations =
    [rel (Num 1) (Num 1),
     rel (Num 2) (Num 2),
     rel (Num 3) (Num 2),
     rel (Num 4) (Num 3),
     rel (Num 5) (Num 4),
     rel (Num 6) (Num 4),
     rel (Num 7) (Num 5),
     rel (Num 8) (Num 6),
     rel (Num 9) (Num 7),
     rel (Num 10) (Num 8),
     rel (Num 11) (Num 8),
     rel (Num 12) (Num 9),
     rel (Num 13) (Num 10),
     rel (Num 14) (Num 11),
     rel (Num 15) (Num 12),
     rel (Num 16) (Num 13),
     rel (Num 17) (Num 3),
     rel (Num 18) (Num 4),
     rel (Num 19) (Num 4),
     rel (Num 20) (Num 14),
     rel (Num 21) (Num 15),
     rel (Num 22) (Num 16),
     rel (Num 23) (Num 17),
     rel (Num 24) (Num 17),
     rel (Num 25) (Num 18),
     rel (Num 26) (Num 19),
     rel (Num 27) (Num 20),
     rel (Num 28) (Num 21)]"


text \<open>
  \<^verbatim>\<open>xs.forEach(f)\<close> for an \<open>f\<close> that may throw: the first exception ends the loop and
  leaves the store as it is at that moment.
\<close>

fun forEach :: "('a \<Rightarrow> store \<Rightarrow> 'b outcome) \<Rightarrow> 'a list \<Rightarrow> store \<Rightarrow> unit outcome" where
  "forEach f [] s = (Inr (), s)"
| "forEach f (x # xs) s =
     (case f x s of
        (Inl e, s') \<Rightarrow> (Inl e, s')
      | (Inr r, s') \<Rightarrow> forEach f xs s')"

definition loadInitialData :: "store \<Rightarrow> unit outcome" where
  "loadInitialData s =
     (case forEach cellModels_create cellModelsData s of
        (Inl e, s1) \<Rightarrow> (Inl e, s1)
      | (Inr u1, s1) \<Rightarrow>
     (case forEach cars_create carsData s1 of
        (Inl e, s2) \<Rightarrow> (Inl e, s2)
      | (Inr u2, s2) \<Rightarrow>
     (case forEach batteryPacks_create batteryPacksData s2 of
        (Inl e, s3) \<Rightarrow> (Inl e, s3)
      | (Inr u3, s3) \<Rightarrow> forEach carBatteryPacks_create relations s3)))"

text \<open>\<^verbatim>\<open>if (!localStorage.getItem(TABLES.cellModels)) loadInitialData()\<close>\<close>

definition initDB :: "store \<Rightarrow> unit outcome" where
  "initDB s = (if s CellModels = None then loadInitialData s else (Inr (), s))"

definition removeItem :: "table \<Rightarrow> store \<Rightarrow> store" where
  "removeItem t s = s(t := None)"

text \<open>\<^verbatim>\<open>Object.values(TABLES)\<close>, in the order of the declaration.\<close>

definition TABLES :: "table list" where
  "TABLES = [CellModels, BatteryPacks, Cars, CarBatteryPacks]"

definition reset :: "store \<Rightarrow> unit outcome" where
  "reset s = initDB (fold removeItem TABLES s)"

text \<open>
  The store that the module leaves when it is loaded over an empty \<^verbatim>\<open>localStorage\<close>.
\<close>

definition seeded_store :: store where
  "seeded_store = snd (initDB empty_store)"

section \<open>The schema, read off the four tables' code\<close>

text \<open>
  The properties that each \<^verbatim>\<open>create\<close> writes besides \<^verbatim>\<open>id\<close>, each with the right operand of
  its \<^verbatim>\<open>||\<close>; \<open>None\<close> where the value is stored as supplied, with no \<^verbatim>\<open>||\<close>.
\<close>

fun declared_fields :: "table \<Rightarrow> (string \<times> jsval option) list" where
  "declared_fields CellModels =
     [(''manufacturer'', Some (Str '''')), (''model'', Some (Str '''')),
      (''chemistry'', Some (Str '''')), (''nominalVoltage'', Some Null),
      (''nominalCapacityMah'', Some Null)]"
| "declared_fields BatteryPacks =
     [(''name'', Some (Str '''')), (''totalCapacityKwh'', Some Null),
      (''seriesCount'', Some Null), (''parallelCount'', Some Null),
      (''cellCount'', Some Null), (''cellModelId'', Some Null)]"
| "declared_fields Cars =
     [(''brand'', Some (Str '''')), (''model'', Some (Str '''')), (''trim'', Some Null),
      (''yearStart'', Some Null), (''yearEnd'', Some Null)]"
| "declared_fields CarBatteryPacks = [(''carId'', None), (''batteryPackId'', None)]"

text \<open>What \<^verbatim>\<open>create\<close> puts in a declared property, given the input object.\<close>

definition created_value :: "obj \<Rightarrow> string \<Rightarrow> jsval option \<Rightarrow> jsval" where
  "created_value d k dflt = (case dflt of None \<Rightarrow> d k | Some v \<Rightarrow> js_or (d k) v)"

definition created_props :: "table \<Rightarrow> obj \<Rightarrow> obj" where
  "created_props t d = literal (map (\<lambda>(k, dflt). (k, created_value d k dflt)) (declared_fields t))"

text \<open>The properties that \<^verbatim>\<open>create\<close> and \<^verbatim>\<open>update\<close> pass to \<^verbatim>\<open>validateFK\<close>, with the table referred to.\<close>

fun foreign_keys :: "table \<Rightarrow> (string \<times> table) list" where
  "foreign_keys CellModels = []"
| "foreign_keys BatteryPacks = [(''cellModelId'', CellModels)]"
| "foreign_keys Cars = []"
| "foreign_keys CarBatteryPacks = [(''carId'', Cars), (''batteryPackId'', BatteryPacks)]"

definition fks_resolve :: "table \<Rightarrow> obj \<Rightarrow> store \<Rightarrow> bool" where
  "fks_resolve t d s = list_all (\<lambda>(k, target). validateFK (d k) target s) (foreign_keys t)"

text \<open>The tables and properties that each \<^verbatim>\<open>remove\<close> scans before it deletes.\<close>

fun referenced_by :: "table \<Rightarrow> (table \<times> string) list" where
  "referenced_by CellModels = [(BatteryPacks, ''cellModelId'')]"
| "referenced_by BatteryPacks = [(CarBatteryPacks, ''batteryPackId'')]"
| "referenced_by Cars = [(CarBatteryPacks, ''carId'')]"
| "referenced_by CarBatteryPacks = []"

definition is_referenced :: "table \<Rightarrow> jsval \<Rightarrow> store \<Rightarrow> bool" where
  "is_referenced t i s =
     list_ex (\<lambda>(t', k). list_ex (\<lambda>r. strict_eq (props r k) i) (list_items t' s)) (referenced_by t)"

text \<open>Whether a record with identifier \<open>i\<close> is in table \<open>t\<close>.\<close>

definition has_id :: "table \<Rightarrow> jsval \<Rightarrow> store \<Rightarrow> bool" where
  "has_id t i s = list_ex (\<lambda>item. strict_eq (idval item) i) (list_items t s)"

text \<open>
  Referential integrity: every stored foreign key is \<^verbatim>\<open>null\<close>, absent, or the identifier of a
  record of the table it refers to.
\<close>

definition fk_present :: "jsval \<Rightarrow> bool" where
  "fk_present v = (v \<noteq> Null \<and> v \<noteq> Undefined)"

definition integrity :: "store \<Rightarrow> bool" where
  "integrity s =
     ((\<forall>p \<in> set (list_items BatteryPacks s).
         fk_present (props p ''cellModelId'') \<longrightarrow> has_id CellModels (props p ''cellModelId'') s)
    \<and> (\<forall>r \<in> set (list_items CarBatteryPacks s).
         (fk_present (props r ''carId'') \<longrightarrow> has_id Cars (props r ''carId'') s)
       \<and> (fk_present (props r ''batteryPackId'') \<longrightarrow>
            has_id BatteryPacks (props r ''batteryPackId'') s)))"

text \<open>
  The states of the store: the empty medium, the medium as the module leaves it when it
  is loaded there, and what any operation of the public interface leaves, whether it
  returns or throws.
\<close>

inductive reachable :: "store \<Rightarrow> bool" where
  reach_empty: "reachable empty_store"
| reach_seeded: "reachable seeded_store"
| reach_create: "reachable s \<Longrightarrow> reachable (snd (create t d s))"
| reach_update: "reachable s \<Longrightarrow> reachable (snd (update t i d s))"
| reach_remove: "reachable s \<Longrightarrow> reachable (snd (remove t i s))"
| reach_reset: "reachable s \<Longrightarrow> reachable (snd (reset s))"

text \<open>
  What \<^verbatim>\<open>update\<close> leaves in the record it targets: the spread of the old record with each
  declared property replaced where the input supplies it.
\<close>

definition updated_props :: "table \<Rightarrow> obj \<Rightarrow> item \<Rightarrow> obj" where
  "updated_props t d old =
     (\<lambda>k. if k \<in> fst ` set (declared_fields t) \<and> d k \<noteq> Undefined then d k else props old k)"

text \<open>Two small stores: one cell model; one cell model and a battery pack made of it.\<close>

definition one_cell :: store where
  "one_cell = snd (create CellModels (literal []) empty_store)"

definition cell_and_pack :: store where
  "cell_and_pack = snd (create BatteryPacks (literal [(''cellModelId'', Num 1)]) one_cell)"



text \<open>
  The identifiers of a table are all below \<open>2^53\<close>, so that \<^verbatim>\<open>getNextId\<close> adds exactly.
\<close>

definition exact_ids :: "table \<Rightarrow> store \<Rightarrow> bool" where
  "exact_ids t s = list_all (\<lambda>n. n < 2 ^ 53) (map item_id (list_items t s))"


text \<open>
  The specification's words for what a created record holds: the supplied fields merged
  over the defaults, a field being supplied when the input has it, and the defaults being
  the empty string for a text attribute and \<^verbatim>\<open>null\<close> for a numeric attribute or a foreign
  key. These two definitions follow the specification, not the code; the code's own
  defaults are \<open>declared_fields\<close>.
\<close>

definition spec_defaults :: "table \<Rightarrow> (string \<times> jsval) list" where
  "spec_defaults t =
     (case t of
        CellModels \<Rightarrow>
          [(''manufacturer'', Str ''''), (''model'', Str ''''), (''chemistry'', Str ''''),
           (''nominalVoltage'', Null), (''nominalCapacityMah'', Null)]
      | BatteryPacks \<Rightarrow>
          [(''name'', Str ''''), (''totalCapacityKwh'', Null), (''seriesCount'', Null),
           (''parallelCount'', Null), (''cellCount'', Null), (''cellModelId'', Null)]
      | Cars \<Rightarrow>
          [(''brand'', Str ''''), (''model'', Str ''''), (''trim'', Str ''''),
           (''yearStart'', Null), (''yearEnd'', Null)]
      | CarBatteryPacks \<Rightarrow> [(''carId'', Null), (''batteryPackId'', Null)])"

definition spec_merge :: "table \<Rightarrow> obj \<Rightarrow> obj" where
  "spec_merge t x =
     (\<lambda>k. case map_of (spec_defaults t) k of
            None \<Rightarrow> Undefined
          | Some dflt \<Rightarrow> if x k = Undefined then dflt else x k)"

text \<open>Input objects used as examples.\<close>

definition zero_volt :: obj where
  "zero_volt = literal [(''nominalVoltage'', Num 0)]"

definition sample_pack :: obj where
  "sample_pack = literal [(''name'', Str ''P''), (''cellCount'', Num 0), (''cellModelId'', Num 1)]"

definition absent_cell :: obj where
  "absent_cell = literal [(''cellModelId'', Undefined)]"

definition bad_cell :: obj where
  "bad_cell = literal [(''cellModelId'', Num 7)]"

definition null_cell :: obj where
  "null_cell = literal [(''cellModelId'', Null)]"


text \<open>
  A caller that removes battery packs one after another, by identifier, going on to the
  next one whether the call returned or threw.
\<close>

fun remove_packs :: "jsval list \<Rightarrow> store \<Rightarrow> store" where
  "remove_packs [] s = s"
| "remove_packs (p # ps) s = remove_packs ps (snd (batteryPacks_remove p s))"

text \<open>The input \<^verbatim>\<open>{model: "M"}\<close>.\<close>

definition rename_model :: obj where
  "rename_model = literal [(''model'', Str ''M'')]"

text \<open>The store after \<^verbatim>\<open>batteryPacks.create({})\<close> on the empty medium.\<close>

definition pack_without_cell :: store where
  "pack_without_cell = snd (create BatteryPacks (literal []) empty_store)"

section \<open>Basic facts\<close>

lemma json_value_idem [simp]: "json_value (json_value v) = json_value v"
  by (cases v) auto

lemma item_id_json_item [simp]: "item_id (json_item r) = item_id r"
  by (simp add: json_item_def)

lemma props_json_item [simp]: "props (json_item r) k = json_value (props r k)"
  by (simp add: json_item_def)

lemma idval_json_item [simp]: "idval (json_item r) = idval r"
  by (simp add: idval_def)

lemma json_item_idem [simp]: "json_item (json_item r) = json_item r"
  by (simp add: json_item_def)

lemma getTable_saveTable:
  "getTable t' (saveTable t d s) = (if t' = t then map json_item d else getTable t' s)"
  by (simp add: getTable_def saveTable_def)

lemma getTable_saveTable_same [simp]: "getTable t (saveTable t d s) = map json_item d"
  by (simp add: getTable_saveTable)

lemma getTable_saveTable_other [simp]: "t' \<noteq> t \<Longrightarrow> getTable t' (saveTable t d s) = getTable t' s"
  by (simp add: getTable_saveTable)

lemma json_getTable [simp]: "map json_item (getTable t s) = getTable t s"
  by (simp add: getTable_def split: option.splits)

lemma in_getTable_json: "r \<in> set (getTable t s) \<Longrightarrow> json_item r = r"
proof -
  have "\<And>xs. map json_item xs = xs \<Longrightarrow> r \<in> set xs \<Longrightarrow> json_item r = r"
    by (metis list.map_id map_eq_conv id_apply)
  then show "r \<in> set (getTable t s) \<Longrightarrow> json_item r = r"
    using json_getTable by blast
qed

lemma strict_eq_idval [simp]: "strict_eq (idval r) v \<longleftrightarrow> v = idval r"
  by (auto simp: strict_eq_def idval_def)

lemma idval_eq [simp]: "idval a = idval b \<longleftrightarrow> item_id a = item_id b"
  by (simp add: idval_def)

lemma Math_max_Max: "ns \<noteq> [] \<Longrightarrow> Math_max ns = Max (set ns)"
  by (cases ns) (simp_all add: Math_max_def Max.set_eq_fold [symmetric])

lemma js_add_one_exact: "n < 2 ^ 53 \<Longrightarrow> js_add_one n = n + 1"
  by (simp add: js_add_one_def)

lemma js_add_one_limit: "js_add_one (2 ^ 53) = 2 ^ 53"
  by (simp add: js_add_one_def)

lemma js_add_one_le: "n \<le> 2 ^ 53 \<Longrightarrow> js_add_one n \<le> 2 ^ 53"
  by (simp add: js_add_one_def)

lemma exact_ids_iff: "exact_ids t s \<longleftrightarrow> (\<forall>x \<in> set (getTable t s). item_id x < 2 ^ 53)"
  by (simp add: exact_ids_def list_items_def list_all_iff)

lemma getNextId_limit:
  "map item_id (getTable t s) = [2 ^ 53] \<Longrightarrow> getNextId t s = 2 ^ 53"
  by (auto simp: getNextId_def Math_max_def js_add_one_def)

lemma getNextId_Max:
  assumes "exact_ids t s"
  shows "getNextId t s = Max (insert 0 (item_id ` set (getTable t s))) + 1"
proof (cases "getTable t s = []")
  case True then show ?thesis by (simp add: getNextId_def)
next
  case False
  then have m: "Max (insert 0 (item_id ` set (getTable t s))) = Max (item_id ` set (getTable t s))"
    by (subst Max_insert) simp_all
  from False have "Max (item_id ` set (getTable t s)) \<in> item_id ` set (getTable t s)"
    by (intro Max_in) simp_all
  with assms have "Max (item_id ` set (getTable t s)) < 2 ^ 53"
    by (auto simp: exact_ids_iff)
  with False m show ?thesis by (simp add: getNextId_def Math_max_Max js_add_one_exact)
qed

lemma findIndex_None: "findIndex p xs = None \<longleftrightarrow> \<not> (\<exists>x\<in>set xs. p x)"
  by (induction xs) auto

lemma findIndex_Some:
  "findIndex p xs = Some i \<Longrightarrow> i < length xs \<and> p (xs ! i) \<and> (\<forall>j<i. \<not> p (xs ! j))"
proof (induction xs arbitrary: i)
  case Nil then show ?case by simp
next
  case (Cons x xs)
  show ?case
  proof (cases "p x")
    case True with Cons.prems show ?thesis by simp
  next
    case False
    with Cons.prems obtain i' where i': "findIndex p xs = Some i'" "i = Suc i'" by auto
    from Cons.IH[OF i'(1)] False i'(2) show ?thesis
      by (auto simp: nth_Cons split: nat.splits)
  qed
qed

section \<open>What each operation does\<close>

declare create.simps [simp del] update.simps [simp del] remove.simps [simp del]

lemma validateFK_iff:
  "validateFK v t s \<longleftrightarrow> v = Null \<or> v = Undefined \<or> v \<in> idval ` set (getTable t s)"
  by (auto simp: validateFK_def list_ex_iff)

lemma has_id_iff: "has_id t i s \<longleftrightarrow> i \<in> idval ` set (getTable t s)"
  by (auto simp: has_id_def list_items_def list_ex_iff)

lemma fks_resolve_simps:
  "fks_resolve CellModels d s = True"
  "fks_resolve Cars d s = True"
  "fks_resolve BatteryPacks d s = validateFK (d ''cellModelId'') CellModels s"
  "fks_resolve CarBatteryPacks d s =
     (validateFK (d ''carId'') Cars s \<and> validateFK (d ''batteryPackId'') BatteryPacks s)"
  by (simp_all add: fks_resolve_def)

lemma validateFK_Undefined [simp]: "validateFK Undefined t s"
  by (simp add: validateFK_def)

lemma create_ok:
  assumes "fks_resolve t d s"
  shows "create t d s =
           (Inr \<lparr>item_id = getNextId t s, props = created_props t d\<rparr>,
            saveTable t (getTable t s @ [\<lparr>item_id = getNextId t s, props = created_props t d\<rparr>]) s)"
  using assms
  by (cases t)
     (simp_all add: fks_resolve_simps created_props_def created_value_def list_items_def Let_def
        create.simps
        cellModels_create_def batteryPacks_create_def cars_create_def carBatteryPacks_create_def)

lemma create_fail:
  assumes "\<not> fks_resolve t d s"
  shows "\<exists>e. create t d s = (Inl e, s) \<and> failure_class e = ValidationError"
  using assms
  by (cases t)
     (auto simp add: fks_resolve_simps Let_def
        create.simps
        cellModels_create_def batteryPacks_create_def cars_create_def carBatteryPacks_create_def)

lemma update_invalid:
  assumes "\<not> fks_resolve t d s"
  shows "\<exists>e. update t i d s = (Inl e, s) \<and> failure_class e = ValidationError"
  using assms
  by (cases t)
     (auto simp add: fks_resolve_simps Let_def
        update.simps
        cellModels_update_def batteryPacks_update_def cars_update_def carBatteryPacks_update_def)

lemma update_missing:
  assumes "fks_resolve t d s" and "\<not> has_id t i s"
  shows "\<exists>e. update t i d s = (Inl e, s) \<and> failure_class e = NotFoundError"
proof -
  from assms(2) have "findIndex (\<lambda>item. strict_eq (idval item) i) (list_items t s) = None"
    by (simp add: findIndex_None has_id_def list_ex_iff)
  with assms(1) show ?thesis
    by (cases t)
       (auto simp add: fks_resolve_simps Let_def
          update.simps
        cellModels_update_def batteryPacks_update_def cars_update_def carBatteryPacks_update_def)
qed

lemma upd_props:
  "(props old)(''manufacturer'' := supplied_or_old d old ''manufacturer'',
               ''model'' := supplied_or_old d old ''model'',
               ''chemistry'' := supplied_or_old d old ''chemistry'',
               ''nominalVoltage'' := supplied_or_old d old ''nominalVoltage'',
               ''nominalCapacityMah'' := supplied_or_old d old ''nominalCapacityMah'')
     = updated_props CellModels d old"
  "(props old)(''name'' := supplied_or_old d old ''name'',
               ''totalCapacityKwh'' := supplied_or_old d old ''totalCapacityKwh'',
               ''seriesCount'' := supplied_or_old d old ''seriesCount'',
               ''parallelCount'' := supplied_or_old d old ''parallelCount'',
               ''cellCount'' := supplied_or_old d old ''cellCount'',
               ''cellModelId'' := supplied_or_old d old ''cellModelId'')
     = updated_props BatteryPacks d old"
  "(props old)(''brand'' := supplied_or_old d old ''brand'',
               ''model'' := supplied_or_old d old ''model'',
               ''trim'' := supplied_or_old d old ''trim'',
               ''yearStart'' := supplied_or_old d old ''yearStart'',
               ''yearEnd'' := supplied_or_old d old ''yearEnd'')
     = updated_props Cars d old"
  "(props old)(''carId'' := supplied_or_old d old ''carId'',
               ''batteryPackId'' := supplied_or_old d old ''batteryPackId'')
     = updated_props CarBatteryPacks d old"
  by (rule ext, simp add: updated_props_def supplied_or_old_def)+

lemma update_ok:
  assumes "fks_resolve t d s"
    and "findIndex (\<lambda>item. strict_eq (idval item) i) (getTable t s) = Some j"
  shows "update t i d s =
           (Inr ((getTable t s ! j)\<lparr>props := updated_props t d (getTable t s ! j)\<rparr>),
            saveTable t ((getTable t s)[j := (getTable t s ! j)\<lparr>props := updated_props t d (getTable t s ! j)\<rparr>]) s)"
proof (cases t)
  case CellModels
  with assms show ?thesis
    by (simp add: update.simps cellModels_update_def list_items_def Let_def upd_props del: fun_upd_apply)
next
  case BatteryPacks
  with assms show ?thesis
    by (simp add: update.simps batteryPacks_update_def list_items_def Let_def upd_props fks_resolve_simps del: fun_upd_apply)
next
  case Cars
  with assms show ?thesis
    by (simp add: update.simps cars_update_def list_items_def Let_def upd_props del: fun_upd_apply)
next
  case CarBatteryPacks
  with assms show ?thesis
    by (simp add: update.simps carBatteryPacks_update_def list_items_def Let_def upd_props fks_resolve_simps del: fun_upd_apply)
qed

lemma is_referenced_simps:
  "is_referenced CellModels i s = list_ex (\<lambda>r. strict_eq (props r ''cellModelId'') i) (getTable BatteryPacks s)"
  "is_referenced BatteryPacks i s = list_ex (\<lambda>r. strict_eq (props r ''batteryPackId'') i) (getTable CarBatteryPacks s)"
  "is_referenced Cars i s = list_ex (\<lambda>r. strict_eq (props r ''carId'') i) (getTable CarBatteryPacks s)"
  "is_referenced CarBatteryPacks i s = False"
  by (simp_all add: is_referenced_def list_items_def)

lemma remove_referenced:
  assumes "is_referenced t i s"
  shows "\<exists>e. remove t i s = (Inl e, s) \<and> failure_class e = ConflictError"
  using assms
  by (cases t)
     (auto simp add: is_referenced_simps Let_def list_items_def
        remove.simps
        cellModels_remove_def batteryPacks_remove_def cars_remove_def carBatteryPacks_remove_def)

lemma length_filter_eq: "length (filter P xs) = length xs \<longleftrightarrow> (\<forall>x\<in>set xs. P x)"
  by (metis filter_id_conv filter_True sum_length_filter_compl add_cancel_right_right length_0_conv filter_empty_conv)

lemma remove_missing:
  assumes "\<not> is_referenced t i s" and "\<not> has_id t i s"
  shows "\<exists>e. remove t i s = (Inl e, s) \<and> failure_class e = NotFoundError"
  using assms
  by (cases t)
     (auto simp add: is_referenced_simps Let_def list_items_def has_id_def list_ex_iff length_filter_eq
        remove.simps
        cellModels_remove_def batteryPacks_remove_def cars_remove_def carBatteryPacks_remove_def)

lemma remove_ok:
  assumes "\<not> is_referenced t i s" and "has_id t i s"
  shows "remove t i s = (Inr True, saveTable t (filter (\<lambda>item. idval item \<noteq> i) (getTable t s)) s)"
  using assms
  by (cases t)
     (auto simp add: is_referenced_simps neq_commute Let_def list_items_def has_id_def list_ex_iff length_filter_eq
        remove.simps
        cellModels_remove_def batteryPacks_remove_def cars_remove_def carBatteryPacks_remove_def)

lemma has_id_findIndex:
  "has_id t i s \<longleftrightarrow> (\<exists>j. findIndex (\<lambda>item. strict_eq (idval item) i) (getTable t s) = Some j)"
  using findIndex_None [of "\<lambda>item. strict_eq (idval item) i" "getTable t s"]
  by (auto simp: has_id_def list_items_def list_ex_iff)

section \<open>Referential integrity is kept by every operation\<close>

lemma fk_has_id: "fk_present v \<longrightarrow> has_id t v s \<equiv> validateFK v t s"
  by (rule eq_reflection) (auto simp: fk_present_def validateFK_iff has_id_iff)

lemma integrity_alt:
  "integrity s \<longleftrightarrow>
     (\<forall>p \<in> set (getTable BatteryPacks s). validateFK (props p ''cellModelId'') CellModels s)
   \<and> (\<forall>r \<in> set (getTable CarBatteryPacks s).
         validateFK (props r ''carId'') Cars s
       \<and> validateFK (props r ''batteryPackId'') BatteryPacks s)"
  by (simp add: integrity_def fk_has_id list_items_def)

lemma validateFK_json: "validateFK v t s \<Longrightarrow> json_value v = v"
  by (auto simp: validateFK_iff idval_def)

lemma validateFK_js_or: "validateFK v t s \<Longrightarrow> validateFK (js_or v Null) t s"
  by (auto simp: js_or_def validateFK_def)

lemma validateFK_mono:
  "validateFK v t s \<Longrightarrow> idval ` set (getTable t s) \<subseteq> idval ` set (getTable t s') \<Longrightarrow> validateFK v t s'"
  by (auto simp: validateFK_iff)

lemma getTable_props_json: "r \<in> set (getTable t s) \<Longrightarrow> json_value (props r k) = props r k"
  using in_getTable_json [of r t s] props_json_item [of r k] by simp

lemma idval_image_json [simp]: "idval ` json_item ` A = idval ` A"
  by (simp add: image_image)

lemma validateFK_saveTable_other [simp]:
  "t' \<noteq> t \<Longrightarrow> validateFK v t' (saveTable t d s) = validateFK v t' s"
  by (simp add: validateFK_def)

lemma validateFK_saveTable_same:
  "validateFK v t (saveTable t d s) \<longleftrightarrow> v = Null \<or> v = Undefined \<or> v \<in> idval ` set d"
  by (simp add: validateFK_iff)

lemma validateFK_json_value: "validateFK v t s \<Longrightarrow> validateFK (json_value v) t s"
  by (simp add: validateFK_json)

lemma integrity_saveTable:
  assumes "integrity s"
    and "\<forall>(k, target) \<in> set (foreign_keys t). \<forall>r \<in> set d. validateFK (props r k) target s"
    and "\<forall>(t', k) \<in> set (referenced_by t). \<forall>r \<in> set (getTable t' s).
           fk_present (props r k) \<longrightarrow> props r k \<in> idval ` set d"
  shows "integrity (saveTable t d s)"
proof (cases t)
  case CellModels
  with assms show ?thesis
    by (auto simp: integrity_alt validateFK_saveTable_same fk_present_def)
next
  case BatteryPacks
  with assms show ?thesis
    by (auto simp: integrity_alt validateFK_saveTable_same fk_present_def
             intro: validateFK_json_value)
next
  case Cars
  with assms show ?thesis
    by (auto simp: integrity_alt validateFK_saveTable_same fk_present_def)
next
  case CarBatteryPacks
  with assms show ?thesis
    by (auto simp: integrity_alt validateFK_saveTable_same fk_present_def
             intro: validateFK_json_value)
qed

lemma fks_resolve_iff:
  "fks_resolve t d s \<longleftrightarrow> (\<forall>(k, target) \<in> set (foreign_keys t). validateFK (d k) target s)"
  by (simp add: fks_resolve_def list_all_iff)

lemma integrity_rows:
  assumes "integrity s" and "(k, target) \<in> set (foreign_keys t)" and "r \<in> set (getTable t s)"
  shows "validateFK (props r k) target s"
  using assms by (cases t) (auto simp: integrity_alt)

lemma referenced_by_foreign_keys:
  "(t', k) \<in> set (referenced_by t) \<longleftrightarrow> (k, t) \<in> set (foreign_keys t')"
  by (cases t; cases t') auto

lemma created_props_fk:
  assumes "fks_resolve t d s" and "(k, target) \<in> set (foreign_keys t)"
  shows "validateFK (created_props t d k) target s"
  using assms
  by (cases t)
     (auto simp: fks_resolve_simps created_props_def created_value_def literal_def
        validateFK_js_or)

lemma integrity_create:
  assumes "integrity s"
  shows "integrity (snd (create t d s))"
proof (cases "fks_resolve t d s")
  case False
  from create_fail [OF False] assms show ?thesis by auto
next
  case True
  let ?new = "\<lparr>item_id = getNextId t s, props = created_props t d\<rparr>"
  have "integrity (saveTable t (getTable t s @ [?new]) s)"
  proof (rule integrity_saveTable [OF assms])
    show "\<forall>(k, target) \<in> set (foreign_keys t). \<forall>r \<in> set (getTable t s @ [?new]).
            validateFK (props r k) target s"
      using integrity_rows [OF assms] created_props_fk [OF True] by auto
    show "\<forall>(t', k) \<in> set (referenced_by t). \<forall>r \<in> set (getTable t' s).
            fk_present (props r k) \<longrightarrow> props r k \<in> idval ` set (getTable t s @ [?new])"
      using integrity_rows [OF assms]
      by (fastforce simp: referenced_by_foreign_keys validateFK_iff fk_present_def)
  qed
  with create_ok [OF True] show ?thesis by simp
qed

lemma set_list_update_subset: "j < length xs \<Longrightarrow> set (xs[j := x]) \<subseteq> insert x (set xs)"
  by (rule set_update_subset_insert)

lemma idval_list_update:
  assumes "j < length xs" and "item_id x = item_id (xs ! j)"
  shows "idval ` set (xs[j := x]) = idval ` set xs"
proof -
  have "map idval (xs[j := x]) = map idval xs"
    using assms by (simp add: map_update list_update_same_conv idval_def)
  then have "set (map idval (xs[j := x])) = set (map idval xs)" by simp
  then show ?thesis by simp
qed

lemma updated_props_fk:
  assumes "fks_resolve t d s" and "(k, target) \<in> set (foreign_keys t)"
    and "validateFK (props old k) target s"
  shows "validateFK (updated_props t d old k) target s"
  using assms
  by (cases t) (auto simp: fks_resolve_simps updated_props_def)

lemma integrity_update:
  assumes "integrity s"
  shows "integrity (snd (update t i d s))"
proof (cases "fks_resolve t d s")
  case False
  from update_invalid [OF False, of i] assms show ?thesis by auto
next
  case True
  show ?thesis
  proof (cases "has_id t i s")
    case False
    from update_missing [OF True False] assms show ?thesis by auto
  next
    case h: True
    then obtain j where j: "findIndex (\<lambda>item. strict_eq (idval item) i) (getTable t s) = Some j"
      by (auto simp: has_id_findIndex)
    let ?old = "getTable t s ! j"
    let ?new = "?old\<lparr>props := updated_props t d ?old\<rparr>"
    from findIndex_Some [OF j] have jl: "j < length (getTable t s)" by simp
    then have old: "?old \<in> set (getTable t s)" by simp
    have ids: "idval ` set ((getTable t s)[j := ?new]) = idval ` set (getTable t s)"
      by (rule idval_list_update [OF jl]) simp
    have "integrity (saveTable t ((getTable t s)[j := ?new]) s)"
    proof (rule integrity_saveTable [OF assms])
      show "\<forall>(k, target) \<in> set (foreign_keys t). \<forall>r \<in> set ((getTable t s)[j := ?new]).
              validateFK (props r k) target s"
      proof (clarify)
        fix k target r
        assume kt: "(k, target) \<in> set (foreign_keys t)"
          and r: "r \<in> set ((getTable t s)[j := ?new])"
        from r set_update_subset_insert [of "getTable t s" j ?new]
        have "r = ?new \<or> r \<in> set (getTable t s)" by auto
        then show "validateFK (props r k) target s"
        proof
          assume "r = ?new"
          with updated_props_fk [OF True kt integrity_rows [OF assms kt old]]
          show ?thesis by simp
        next
          assume "r \<in> set (getTable t s)"
          with integrity_rows [OF assms kt] show ?thesis by simp
        qed
      qed
      show "\<forall>(t', k) \<in> set (referenced_by t). \<forall>r \<in> set (getTable t' s).
              fk_present (props r k) \<longrightarrow> props r k \<in> idval ` set ((getTable t s)[j := ?new])"
        unfolding ids using integrity_rows [OF assms]
        by (fastforce simp: referenced_by_foreign_keys validateFK_iff fk_present_def)
    qed
    with update_ok [OF True j] show ?thesis by simp
  qed
qed

lemma is_referenced_iff:
  "is_referenced t i s \<longleftrightarrow>
     (\<exists>(t', k) \<in> set (referenced_by t). \<exists>r \<in> set (getTable t' s). strict_eq (props r k) i)"
  by (simp add: is_referenced_def list_ex_iff list_items_def)

lemma integrity_remove:
  assumes "integrity s"
  shows "integrity (snd (remove t i s))"
proof (cases "is_referenced t i s")
  case True
  from remove_referenced [OF True] assms show ?thesis by auto
next
  case False
  show ?thesis
  proof (cases "has_id t i s")
    case h: False
    from remove_missing [OF False h] assms show ?thesis by auto
  next
    case h: True
    let ?d = "filter (\<lambda>item. idval item \<noteq> i) (getTable t s)"
    have "integrity (saveTable t ?d s)"
    proof (rule integrity_saveTable [OF assms])
      show "\<forall>(k, target) \<in> set (foreign_keys t). \<forall>r \<in> set ?d. validateFK (props r k) target s"
        using integrity_rows [OF assms] by auto
      show "\<forall>(t', k) \<in> set (referenced_by t). \<forall>r \<in> set (getTable t' s).
              fk_present (props r k) \<longrightarrow> props r k \<in> idval ` set ?d"
      proof (clarify)
        fix t' k r
        assume tk: "(t', k) \<in> set (referenced_by t)" and r: "r \<in> set (getTable t' s)"
          and p: "fk_present (props r k)"
        from tk have "(k, t) \<in> set (foreign_keys t')" by (simp add: referenced_by_foreign_keys)
        from integrity_rows [OF assms this r] p
        obtain x where x: "x \<in> set (getTable t s)" "props r k = idval x"
          by (auto simp: validateFK_iff fk_present_def)
        from False tk r have "\<not> strict_eq (props r k) i"
          by (auto simp: is_referenced_iff)
        with x have "idval x \<noteq> i" by (auto simp: strict_eq_def idval_def)
        with x show "props r k \<in> idval ` set ?d" by auto
      qed
    qed
    with remove_ok [OF False h] show ?thesis by simp
  qed
qed

lemma forEach_invariant:
  assumes "\<And>x s. P s \<Longrightarrow> P (snd (f x s))" and "P s"
  shows "P (snd (forEach f xs s))"
  using assms(2)
proof (induction xs arbitrary: s)
  case Nil then show ?case by simp
next
  case (Cons x xs)
  from assms(1) [OF Cons.prems, of x] Cons.IH [of "snd (f x s)"]
  show ?case by (auto split: prod.splits sum.splits)
qed

lemma integrity_empty: "integrity empty_store"
  by (simp add: integrity_def list_items_def getTable_def empty_store_def)

lemma integrity_loadInitialData:
  assumes "integrity s"
  shows "integrity (snd (loadInitialData s))"
proof -
  have a: "integrity (snd (forEach (create t) xs s'))" if "integrity s'" for t xs s'
    using that by (rule forEach_invariant [where P = integrity, rotated]) (rule integrity_create)
  from a [of s CellModels cellModelsData, OF assms]
  have 1: "integrity (snd (forEach cellModels_create cellModelsData s))" by (simp add: create.simps)
  from a [of _ Cars carsData, OF 1]
  have 2: "integrity (snd (forEach cars_create carsData (snd (forEach cellModels_create cellModelsData s))))" by (simp add: create.simps)
  from a [of _ BatteryPacks batteryPacksData, OF 2]
  have 3: "integrity (snd (forEach batteryPacks_create batteryPacksData (snd (forEach cars_create carsData (snd (forEach cellModels_create cellModelsData s))))))" by (simp add: create.simps)
  from a [of _ CarBatteryPacks relations, OF 3]
  have 4: "integrity (snd (forEach carBatteryPacks_create relations (snd (forEach batteryPacks_create batteryPacksData (snd (forEach cars_create carsData (snd (forEach cellModels_create cellModelsData s))))))))" by (simp add: create.simps)
  from 1 2 3 4 show ?thesis
    by (auto simp: loadInitialData_def split: prod.splits sum.splits)
qed

lemma reset_eq: "reset s = loadInitialData empty_store"
proof -
  have "fold removeItem TABLES s = empty_store"
  proof
    fix t show "fold removeItem TABLES s t = empty_store t"
      by (cases t) (simp_all add: TABLES_def removeItem_def empty_store_def)
  qed
  then show ?thesis by (simp add: reset_def initDB_def empty_store_def)
qed

lemma seeded_store_eq: "seeded_store = snd (loadInitialData empty_store)"
  by (simp add: seeded_store_def initDB_def empty_store_def)

section \<open>Small stores, evaluated\<close>

lemma getTable_empty [simp]: "getTable t empty_store = []"
  by (simp add: getTable_def empty_store_def)

lemma getNextId_empty: "getTable t s = [] \<Longrightarrow> getNextId t s = 1"
  by (simp add: getNextId_def)

lemma one_cell_cells: "map item_id (getTable CellModels one_cell) = [1]"
  by (simp add: one_cell_def create_ok fks_resolve_simps getNextId_empty)

lemma one_cell_resolves: "fks_resolve BatteryPacks (literal [(''cellModelId'', Num 1)]) one_cell"
  using one_cell_cells
  by (auto simp add: fks_resolve_simps validateFK_iff literal_def idval_def)

lemma cell_and_pack_packs:
  "map (\<lambda>p. props p ''cellModelId'') (getTable BatteryPacks cell_and_pack) = [Num 1]"
  unfolding cell_and_pack_def create_ok [OF one_cell_resolves]
  by (simp add: created_props_def created_value_def literal_def js_or_def one_cell_def create_ok
        fks_resolve_simps)

section \<open>Creating a list of records; the seeding\<close>

lemma create_other: "t' \<noteq> t \<Longrightarrow> getTable t' (snd (create t d s)) = getTable t' s"
proof (cases "fks_resolve t d s")
  case True
  assume "t' \<noteq> t"
  with create_ok [OF True] show ?thesis by simp
next
  case False
  from create_fail [OF False] show ?thesis by auto
qed

lemma create_table:
  assumes "fks_resolve t d s"
  shows "getTable t (snd (create t d s)) =
           getTable t s @ [json_item \<lparr>item_id = getNextId t s, props = created_props t d\<rparr>]"
  by (simp add: create_ok [OF assms])

lemma getNextId_greater:
  "exact_ids t s \<Longrightarrow> r \<in> set (getTable t s) \<Longrightarrow> item_id r < getNextId t s"
  by (simp add: getNextId_Max less_Suc_eq_le)

lemma exact_ids_create:
  assumes "fks_resolve t d s" and "exact_ids t s" and "getNextId t s < 2 ^ 53"
  shows "exact_ids t (snd (create t d s))"
  using assms by (simp add: exact_ids_iff create_table [OF assms(1)] ball_Un)

lemma getNextId_create:
  assumes "fks_resolve t d s" and "exact_ids t s" and "getNextId t s < 2 ^ 53"
  shows "getNextId t (snd (create t d s)) = getNextId t s + 1"
proof -
  let ?A = "item_id ` set (getTable t s)"
  let ?n = "getNextId t s"
  have fin: "finite (insert 0 ?A)" by simp
  have n: "?n = Max (insert 0 ?A) + 1" by (rule getNextId_Max [OF assms(2)])
  have "Max (insert ?n (insert 0 ?A)) = max ?n (Max (insert 0 ?A))"
    by (rule Max_insert) (use fin in auto)
  also have "\<dots> = ?n" using n by simp
  finally have "Max (insert 0 (insert ?n ?A)) = ?n" by (simp add: insert_commute)
  then show ?thesis
    by (simp add: getNextId_Max [OF exact_ids_create [OF assms]] create_table [OF assms(1)])
qed

lemma fks_resolve_create:
  "fks_resolve t x (snd (create t d s)) = fks_resolve t x s"
  by (cases t) (simp_all add: fks_resolve_simps validateFK_iff create_other)

lemma forEach_create:
  assumes "\<forall>x \<in> set xs. fks_resolve t x s"
    and "exact_ids t s" and "getNextId t s + length xs \<le> 2 ^ 53"
  shows "fst (forEach (create t) xs s) = Inr ()
       \<and> map item_id (getTable t (snd (forEach (create t) xs s)))
           = map item_id (getTable t s) @ [getNextId t s ..< getNextId t s + length xs]
       \<and> (\<forall>t'. t' \<noteq> t \<longrightarrow> getTable t' (snd (forEach (create t) xs s)) = getTable t' s)"
  using assms
proof (induction xs arbitrary: s)
  case Nil
  show ?case by simp
next
  case (Cons x xs)
  from Cons.prems have x: "fks_resolve t x s" by simp
  from Cons.prems have e: "exact_ids t s" and n: "getNextId t s < 2 ^ 53" by simp_all
  let ?s1 = "snd (create t x s)"
  from Cons.prems have r1: "\<forall>y \<in> set xs. fks_resolve t y ?s1" by (simp add: fks_resolve_create)
  have e1: "exact_ids t ?s1" by (rule exact_ids_create [OF x e n])
  have n1: "getNextId t ?s1 = getNextId t s + 1" by (rule getNextId_create [OF x e n])
  with Cons.prems have b1: "getNextId t ?s1 + length xs \<le> 2 ^ 53" by simp
  note ih = Cons.IH [OF r1 e1 b1]
  have step: "forEach (create t) (x # xs) s = forEach (create t) xs ?s1"
    by (simp add: create_ok [OF x])
  have "[getNextId t s ..< getNextId t s + length (x # xs)]
          = getNextId t s # [Suc (getNextId t s) ..< Suc (getNextId t s) + length xs]"
    by (subst upt_rec) simp
  with ih show ?case
    unfolding step by (simp add: n1 create_table [OF x] create_other)
qed

lemma idval_image: "idval ` set xs = set (map (\<lambda>n. Num (of_nat n)) (map item_id xs))"
  by (auto simp: idval_def)

lemma cells_check:
  "list_all (\<lambda>x. x ''cellModelId'' \<in> set (map (\<lambda>n. Num (of_nat n)) [1..<23])) batteryPacksData"
  by code_simp

lemma rel_check:
  "list_all (\<lambda>x. x ''carId'' \<in> set (map (\<lambda>n. Num (of_nat n)) [1..<29])
               \<and> x ''batteryPackId'' \<in> set (map (\<lambda>n. Num (of_nat n)) [1..<22])) relations"
  by code_simp

lemma data_lengths:
  "length cellModelsData = 22" "length carsData = 28"
  "length batteryPacksData = 21" "length relations = 28"
  by (simp_all add: cellModelsData_def carsData_def batteryPacksData_def relations_def)

lemma forEach_create_empty:
  assumes "getTable t s = []" and "\<forall>x \<in> set xs. fks_resolve t x s"
    and "length xs < 2 ^ 53"
  shows "fst (forEach (create t) xs s) = Inr ()"
    and "map item_id (getTable t (snd (forEach (create t) xs s))) = [1 ..< Suc (length xs)]"
    and "t' \<noteq> t \<Longrightarrow> getTable t' (snd (forEach (create t) xs s)) = getTable t' s"
proof -
  have e: "exact_ids t s" by (simp add: exact_ids_iff assms(1))
  have b: "getNextId t s + length xs \<le> 2 ^ 53"
    using assms(3) by (simp add: getNextId_empty [OF assms(1)])
  note f = forEach_create [OF assms(2) e b]
  from f show "fst (forEach (create t) xs s) = Inr ()" by simp
  from f show "map item_id (getTable t (snd (forEach (create t) xs s))) = [1 ..< Suc (length xs)]"
    by (simp add: getNextId_empty [OF assms(1)] assms(1))
  from f show "t' \<noteq> t \<Longrightarrow> getTable t' (snd (forEach (create t) xs s)) = getTable t' s"
    by simp
qed

lemma validateFK_member:
  assumes "map item_id (getTable t s) = ns" and "v \<in> set (map (\<lambda>n. Num (of_nat n)) ns)"
  shows "validateFK v t s"
  using assms by (auto simp: validateFK_iff idval_def)

lemma loadInitialData_empty:
  "fst (loadInitialData empty_store) = Inr ()"
  "map item_id (getTable CellModels (snd (loadInitialData empty_store))) = [1..<23]"
  "map item_id (getTable Cars (snd (loadInitialData empty_store))) = [1..<29]"
  "map item_id (getTable BatteryPacks (snd (loadInitialData empty_store))) = [1..<22]"
  "map item_id (getTable CarBatteryPacks (snd (loadInitialData empty_store))) = [1..<29]"
proof -
  define s1 where "s1 = snd (forEach (create CellModels) cellModelsData empty_store)"
  define s2 where "s2 = snd (forEach (create Cars) carsData s1)"
  define s3 where "s3 = snd (forEach (create BatteryPacks) batteryPacksData s2)"
  define s4 where "s4 = snd (forEach (create CarBatteryPacks) relations s3)"
  have l: "length cellModelsData < 2 ^ 53" "length carsData < 2 ^ 53"
    "length batteryPacksData < 2 ^ 53" "length relations < 2 ^ 53"
    by (simp_all add: data_lengths)
  have r1: "\<forall>x \<in> set cellModelsData. fks_resolve CellModels x empty_store"
    by (simp add: fks_resolve_simps)
  note f1 = forEach_create_empty [OF getTable_empty r1 l(1), folded s1_def]
  have e2: "getTable Cars s1 = []" by (simp add: f1(3))
  have r2: "\<forall>x \<in> set carsData. fks_resolve Cars x s1" by (simp add: fks_resolve_simps)
  note f2 = forEach_create_empty [OF e2 r2 l(2), folded s2_def]
  have cells2: "map item_id (getTable CellModels s2) = [1..<23]"
    by (simp add: f2(3) f1(2) data_lengths)
  have e3: "getTable BatteryPacks s2 = []" by (simp add: f2(3) f1(3))
  have r3: "\<forall>x \<in> set batteryPacksData. fks_resolve BatteryPacks x s2"
    using cells_check
    by (auto simp: fks_resolve_simps list_all_iff intro!: validateFK_member [OF cells2])
  note f3 = forEach_create_empty [OF e3 r3 l(3), folded s3_def]
  have cells3: "map item_id (getTable CellModels s3) = [1..<23]"
    by (simp add: f3(3) cells2)
  have cars3: "map item_id (getTable Cars s3) = [1..<29]"
    by (simp add: f3(3) f2(2) data_lengths)
  have packs3: "map item_id (getTable BatteryPacks s3) = [1..<22]"
    by (simp add: f3(2) data_lengths)
  have e4: "getTable CarBatteryPacks s3 = []" by (simp add: f3(3) f2(3) f1(3))
  have r4: "\<forall>x \<in> set relations. fks_resolve CarBatteryPacks x s3"
    using rel_check
    by (auto simp: fks_resolve_simps list_all_iff
             intro!: validateFK_member [OF cars3] validateFK_member [OF packs3])
  note f4 = forEach_create_empty [OF e4 r4 l(4), folded s4_def]
  have p1: "forEach cellModels_create cellModelsData empty_store = (Inr (), s1)"
    unfolding s1_def create.simps [symmetric] by (rule prod_eqI) (simp_all add: f1(1) s1_def)
  have p2: "forEach cars_create carsData s1 = (Inr (), s2)"
    unfolding s2_def create.simps [symmetric] by (rule prod_eqI) (simp_all add: f2(1) s2_def)
  have p3: "forEach batteryPacks_create batteryPacksData s2 = (Inr (), s3)"
    unfolding s3_def create.simps [symmetric] by (rule prod_eqI) (simp_all add: f3(1) s3_def)
  have p4: "forEach carBatteryPacks_create relations s3 = (Inr (), s4)"
    unfolding s4_def create.simps [symmetric] by (rule prod_eqI) (simp_all add: f4(1) s4_def)
  have load: "loadInitialData empty_store = (Inr (), s4)"
    by (simp add: loadInitialData_def p1 p2 p3 p4)
  show "fst (loadInitialData empty_store) = Inr ()" by (simp add: load)
  show "map item_id (getTable CellModels (snd (loadInitialData empty_store))) = [1..<23]"
    by (simp add: load f4(3) cells3)
  show "map item_id (getTable Cars (snd (loadInitialData empty_store))) = [1..<29]"
    by (simp add: load f4(3) cars3)
  show "map item_id (getTable BatteryPacks (snd (loadInitialData empty_store))) = [1..<22]"
    by (simp add: load f4(3) packs3)
  show "map item_id (getTable CarBatteryPacks (snd (loadInitialData empty_store))) = [1..<29]"
    by (simp add: load f4(2) data_lengths)
qed

lemma length_from_ids: "map item_id xs = [1..<Suc n] \<Longrightarrow> length xs = n"
  by (metis length_map length_upt diff_Suc_1)

section \<open>The tables after an operation; identifiers\<close>


lemma update_cases:
  "snd (update t i d s) = s
   \<or> (\<exists>j < length (getTable t s). \<exists>p.
         snd (update t i d s) = saveTable t ((getTable t s)[j := (getTable t s ! j)\<lparr>props := p\<rparr>]) s)"
proof (cases "fks_resolve t d s")
  case False
  from update_invalid [OF False, of i] show ?thesis by auto
next
  case True
  show ?thesis
  proof (cases "has_id t i s")
    case False
    from update_missing [OF True False] show ?thesis by auto
  next
    case h: True
    then obtain j where j: "findIndex (\<lambda>item. strict_eq (idval item) i) (getTable t s) = Some j"
      by (auto simp: has_id_findIndex)
    from findIndex_Some [OF j] have "j < length (getTable t s)" by simp
    with update_ok [OF True j] show ?thesis by auto
  qed
qed

lemma remove_cases:
  "snd (remove t i s) = s
   \<or> snd (remove t i s) = saveTable t (filter (\<lambda>item. idval item \<noteq> i) (getTable t s)) s"
proof (cases "is_referenced t i s")
  case True
  from remove_referenced [OF True] show ?thesis by auto
next
  case False
  show ?thesis
  proof (cases "has_id t i s")
    case h: False
    from remove_missing [OF False h] show ?thesis by auto
  next
    case h: True
    from remove_ok [OF False h] show ?thesis by simp
  qed
qed

lemma update_other: "t' \<noteq> t \<Longrightarrow> getTable t' (snd (update t i d s)) = getTable t' s"
  using update_cases [of t i d s] by auto



lemma remove_other: "t' \<noteq> t \<Longrightarrow> getTable t' (snd (remove t i s)) = getTable t' s"
  using remove_cases [of t i s] by auto

lemma filter_getTable_json [simp]:
  "map json_item (filter P (getTable t s)) = filter P (getTable t s)"
  by (rule map_idI) (auto simp: in_getTable_json)


lemma getNextId_fresh:
  assumes "exact_ids t s"
  shows "getNextId t s \<notin> item_id ` set (getTable t s)"
proof
  assume "getNextId t s \<in> item_id ` set (getTable t s)"
  then obtain r where r: "r \<in> set (getTable t s)" and "item_id r = getNextId t s" by auto
  with getNextId_greater [OF assms r] show False by simp
qed














lemma idval_neq_Num: "idval item \<noteq> Num (of_nat n) \<longleftrightarrow> item_id item \<noteq> n"
  by (simp add: idval_def)

lemma remove_ids:
  assumes "\<not> is_referenced t (Num (of_nat n)) s" and "has_id t (Num (of_nat n)) s"
  shows "map item_id (getTable t (snd (remove t (Num (of_nat n)) s)))
           = filter (\<lambda>m. m \<noteq> n) (map item_id (getTable t s))"
  by (simp add: remove_ok [OF assms] idval_neq_Num filter_map comp_def)





section \<open>The empty store\<close>

lemma has_id_empty [simp]: "\<not> has_id t i empty_store"
  by (simp add: has_id_iff)

lemma validateFK_empty: "validateFK v t empty_store \<longleftrightarrow> v = Null \<or> v = Undefined"
  by (simp add: validateFK_iff)

section \<open>Reading back a created record\<close>

lemma find_append_last:
  "\<forall>y \<in> set xs. \<not> P y \<Longrightarrow> P x \<Longrightarrow> find P (xs @ [x]) = Some x"
  by (induction xs) auto

lemma get_created:
  assumes "fks_resolve t d s" and "exact_ids t s"
  shows "get_item t (idval \<lparr>item_id = getNextId t s, props = created_props t d\<rparr>)
           (snd (create t d s))
         = Some (json_item \<lparr>item_id = getNextId t s, props = created_props t d\<rparr>)"
proof -
  have "\<forall>y \<in> set (getTable t s). getNextId t s \<noteq> item_id y"
    by (metis getNextId_fresh [OF assms(2)] imageI)
  then show ?thesis
    by (simp add: get_item_def list_items_def create_table [OF assms(1)] find_append_last)
qed

lemma exact_ids_empty: "getTable t s = [] \<Longrightarrow> exact_ids t s"
  by (simp add: exact_ids_iff)

lemma created_props_declared:
  "(k, dflt) \<in> set (declared_fields t) \<Longrightarrow> created_props t d k = created_value d k dflt"
  by (cases t) (auto simp: created_props_def literal_def)

lemma created_props_undeclared:
  "k \<notin> fst ` set (declared_fields t) \<Longrightarrow> created_props t d k = Undefined"
  by (cases t) (auto simp: created_props_def literal_def)

lemma one_cell_has_id: "has_id CellModels (Num 1) one_cell"
  using one_cell_cells by (simp add: has_id_iff idval_image)

lemma sample_pack_resolves: "fks_resolve BatteryPacks sample_pack one_cell"
  using one_cell_has_id
  by (simp add: fks_resolve_simps validateFK_iff has_id_iff sample_pack_def literal_def)

section \<open>Removing and updating, evaluated\<close>

lemma remove_packs_cells: "getTable CellModels (remove_packs ps s) = getTable CellModels s"
proof (induction ps arbitrary: s)
  case Nil show ?case by simp
next
  case (Cons p ps)
  have "getTable CellModels (snd (remove BatteryPacks p s)) = getTable CellModels s"
    by (rule remove_other) simp
  with Cons.IH [of "snd (batteryPacks_remove p s)"] show ?case by (simp add: remove.simps)
qed

lemma remove_ok_gone:
  assumes "\<not> is_referenced t i s" and "has_id t i s"
  shows "\<not> has_id t i (snd (remove t i s))"
  by (auto simp: remove_ok [OF assms] has_id_iff)

lemma cell_and_pack_cells: "has_id CellModels (Num 1) cell_and_pack"
  using one_cell_has_id by (simp add: has_id_iff cell_and_pack_def create_other)

lemma cell_and_pack_ids: "map item_id (getTable BatteryPacks cell_and_pack) = [1]"
proof -
  have "getTable BatteryPacks one_cell = []" by (simp add: one_cell_def create_other)
  then show ?thesis
    by (simp add: cell_and_pack_def create_table [OF one_cell_resolves] getNextId_empty)
qed

lemma cell_and_pack_removed: "getTable BatteryPacks (remove_packs [Num 1] cell_and_pack) = []"
proof -
  have "getTable CarBatteryPacks cell_and_pack = []"
    by (simp add: cell_and_pack_def one_cell_def create_other)
  then have r: "\<not> is_referenced BatteryPacks (Num (of_nat 1)) cell_and_pack"
    by (simp add: is_referenced_simps)
  have h: "has_id BatteryPacks (Num (of_nat 1)) cell_and_pack"
    by (simp add: has_id_iff idval_image cell_and_pack_ids)
  from remove_ids [OF r h] show ?thesis
    by (simp add: cell_and_pack_ids remove.simps)
qed

lemma literal_single: "k \<noteq> f \<Longrightarrow> literal [(f, v)] k = Undefined"
  by (simp add: literal_def)

lemma update_table:
  assumes "fks_resolve t d s"
    and "findIndex (\<lambda>item. strict_eq (idval item) i) (getTable t s) = Some j"
  shows "getTable t (snd (update t i d s))
           = (getTable t s)[j := json_item ((getTable t s ! j)\<lparr>props := updated_props t d (getTable t s ! j)\<rparr>)]"
  by (simp add: update_ok [OF assms] map_update)

lemma update_unchanged:
  assumes "\<not> (fks_resolve t d s \<and> has_id t i s)"
  shows "snd (update t i d s) = s"
proof (cases "fks_resolve t d s")
  case False
  from update_invalid [OF False, of i] show ?thesis by auto
next
  case True
  with assms have "\<not> has_id t i s" by simp
  from update_missing [OF True this] show ?thesis by auto
qed

lemma one_cell_table:
  "getTable CellModels one_cell
     = [json_item \<lparr>item_id = 1, props = created_props CellModels (literal [])\<rparr>]"
  by (simp add: one_cell_def create_table fks_resolve_simps getNextId_empty)

lemma one_cell_renamed:
  "getTable CellModels (snd (update CellModels (Num 1) rename_model one_cell))
     = [json_item ((getTable CellModels one_cell ! 0)
          \<lparr>props := updated_props CellModels rename_model (getTable CellModels one_cell ! 0)\<rparr>)]"
proof -
  have ok: "fks_resolve CellModels rename_model one_cell" by (simp add: fks_resolve_simps)
  have j: "findIndex (\<lambda>item. strict_eq (idval item) (Num 1)) (getTable CellModels one_cell) = Some 0"
    by (simp add: one_cell_table idval_def strict_eq_def)
  from update_table [OF ok j] show ?thesis by (simp add: one_cell_table)
qed

section \<open>Integrity of the reachable states\<close>

lemma integrity_reachable: "reachable s \<Longrightarrow> integrity s"
proof (induction rule: reachable.induct)
  case reach_empty
  show ?case by (rule integrity_empty)
next
  case reach_seeded
  show ?case unfolding seeded_store_eq by (rule integrity_loadInitialData [OF integrity_empty])
next
  case (reach_create s t d)
  then show ?case by (simp add: integrity_create)
next
  case (reach_update s t i d)
  then show ?case by (simp add: integrity_update)
next
  case (reach_remove s t i)
  then show ?case by (simp add: integrity_remove)
next
  case (reach_reset s)
  show ?case unfolding reset_eq by (rule integrity_loadInitialData [OF integrity_empty])
qed

section \<open>A battery pack with no cell model\<close>

lemma pack_without_cell_table:
  "getTable BatteryPacks pack_without_cell
     = [json_item \<lparr>item_id = 1, props = created_props BatteryPacks (literal [])\<rparr>]"
  by (simp add: pack_without_cell_def create_table fks_resolve_simps getNextId_empty literal_def)

lemma pack_without_cell_others:
  "getTable CellModels pack_without_cell = []" "getTable CarBatteryPacks pack_without_cell = []"
  by (simp_all add: pack_without_cell_def create_other)

lemma pack_without_cell_fk:
  "map (\<lambda>p. props p ''cellModelId'') (getTable BatteryPacks pack_without_cell) = [Null]"
  by (simp add: pack_without_cell_table created_props_def created_value_def literal_def js_or_def)

lemma pack_without_cell_removed:
  "fst (batteryPacks_remove (Num 1) pack_without_cell) = Inr True"
  "getTable BatteryPacks (remove_packs [Num 1] pack_without_cell) = []"
  "getTable CellModels (remove_packs [Num 1] pack_without_cell) = []"
proof -
  have r: "\<not> is_referenced BatteryPacks (Num (of_nat 1)) pack_without_cell"
    by (simp add: is_referenced_simps pack_without_cell_others)
  have h: "has_id BatteryPacks (Num (of_nat 1)) pack_without_cell"
    by (simp add: has_id_iff pack_without_cell_table idval_def)
  from remove_ok [OF r h] show "fst (batteryPacks_remove (Num 1) pack_without_cell) = Inr True"
    by (simp add: remove.simps)
  from remove_ids [OF r h]
  show "getTable BatteryPacks (remove_packs [Num 1] pack_without_cell) = []"
    by (simp add: pack_without_cell_table remove.simps)
  show "getTable CellModels (remove_packs [Num 1] pack_without_cell) = []"
    by (simp only: remove_packs_cells pack_without_cell_others)
qed

section \<open>The properties of the specification\<close>

text \<open>
  C8. A create, update or remove that fails leaves the store as it found it: whatever
  the table, the arguments and the failure, the store at the throw is the store of the
  call, key by key, so no table has been written (a table that was not there is still
  not there).
\<close>

theorem failing_operation_leaves_store:
  "(fst (create t d s) = Inl e \<longrightarrow> snd (create t d s) = s)
   \<and> (fst (update t i d s) = Inl e \<longrightarrow> snd (update t i d s) = s)
   \<and> (fst (remove t i s) = Inl e \<longrightarrow> snd (remove t i s) = s)"
proof (intro conjI impI)
  assume f: "fst (create t d s) = Inl e"
  show "snd (create t d s) = s"
  proof (cases "fks_resolve t d s")
    case True
    from create_ok [OF True] f show ?thesis by simp
  next
    case False
    from create_fail [OF False] show ?thesis by auto
  qed
next
  assume f: "fst (update t i d s) = Inl e"
  show "snd (update t i d s) = s"
  proof (cases "fks_resolve t d s")
    case False
    from update_invalid [OF False, of i] show ?thesis by auto
  next
    case True
    show ?thesis
    proof (cases "has_id t i s")
      case False
      from update_missing [OF True False] show ?thesis by auto
    next
      case h: True
      then obtain j where "findIndex (\<lambda>item. strict_eq (idval item) i) (getTable t s) = Some j"
        by (auto simp: has_id_findIndex)
      from update_ok [OF True this] f show ?thesis by simp
    qed
  qed
next
  assume f: "fst (remove t i s) = Inl e"
  show "snd (remove t i s) = s"
  proof (cases "is_referenced t i s")
    case True
    from remove_referenced [OF True] show ?thesis by auto
  next
    case False
    show ?thesis
    proof (cases "has_id t i s")
      case h: False
      from remove_missing [OF False h] show ?thesis by auto
    next
      case h: True
      from remove_ok [OF False h] f show ?thesis by simp
    qed
  qed
qed

theorem failing_operation_leaves_store_witness:
  "fst (create BatteryPacks (literal [(''cellModelId'', Num 7)]) empty_store) = Inl InvalidCellModelId
   \<and> snd (create BatteryPacks (literal [(''cellModelId'', Num 7)]) empty_store) = empty_store
   \<and> fst (update Cars (Num 1) (literal []) empty_store) = Inl CarNotFound
   \<and> snd (update Cars (Num 1) (literal []) empty_store) = empty_store
   \<and> fst (remove CellModels (Num 1) empty_store) = Inl CellModelNotFound
   \<and> snd (remove CellModels (Num 1) empty_store) = empty_store"
proof -
  have c: "fst (create BatteryPacks (literal [(''cellModelId'', Num 7)]) empty_store) = Inl InvalidCellModelId"
    by (simp add: create.simps batteryPacks_create_def validateFK_def literal_def getTable_def
          empty_store_def)
  have u: "fst (update Cars (Num 1) (literal []) empty_store) = Inl CarNotFound"
    by (simp add: update.simps cars_update_def list_items_def getTable_def empty_store_def)
  have r: "fst (remove CellModels (Num 1) empty_store) = Inl CellModelNotFound"
    by (simp add: remove.simps cellModels_remove_def list_items_def getTable_def empty_store_def)
  from c u r
    failing_operation_leaves_store
      [where t = BatteryPacks and d = "literal [(''cellModelId'', Num 7)]"
         and s = empty_store and e = InvalidCellModelId]
    failing_operation_leaves_store
      [where t = Cars and d = "literal []" and i = "Num 1" and s = empty_store
         and e = CarNotFound]
    failing_operation_leaves_store
      [where t = CellModels and i = "Num 1" and s = empty_store and e = CellModelNotFound]
  show ?thesis by simp
qed

text \<open>
  C4. Referential integrity holds in every reachable state: starting from the empty medium
  or from the seeded store, after any sequence of create, update, remove (and reset)
  calls on any table, each of which may return or throw, every \<^verbatim>\<open>cellModelId\<close> of a battery
  pack, and every \<^verbatim>\<open>carId\<close> and \<^verbatim>\<open>batteryPackId\<close> of a junction row, that is neither \<^verbatim>\<open>null\<close> nor
  absent is the identifier of a record of the table it refers to.
\<close>

theorem reachable_integrity:
  "reachable s \<Longrightarrow>
     (\<forall>p \<in> set (list_items BatteryPacks s).
        props p ''cellModelId'' \<noteq> Null \<longrightarrow> props p ''cellModelId'' \<noteq> Undefined \<longrightarrow>
          (\<exists>c \<in> set (list_items CellModels s). idval c = props p ''cellModelId''))
   \<and> (\<forall>r \<in> set (list_items CarBatteryPacks s).
        (props r ''carId'' \<noteq> Null \<longrightarrow> props r ''carId'' \<noteq> Undefined \<longrightarrow>
           (\<exists>c \<in> set (list_items Cars s). idval c = props r ''carId''))
      \<and> (props r ''batteryPackId'' \<noteq> Null \<longrightarrow> props r ''batteryPackId'' \<noteq> Undefined \<longrightarrow>
           (\<exists>p \<in> set (list_items BatteryPacks s). idval p = props r ''batteryPackId'')))
   \<and> integrity s"
proof -
  assume "reachable s"
  then have i: "integrity s" by (rule integrity_reachable)
  have "has_id t v s \<longleftrightarrow> (\<exists>c \<in> set (list_items t s). idval c = v)" for t v
    by (auto simp: has_id_iff list_items_def)
  with i show ?thesis
    by (simp add: integrity_def fk_present_def)
qed

theorem reachable_integrity_witness:
  "reachable cell_and_pack
   \<and> map (\<lambda>p. props p ''cellModelId'') (list_items BatteryPacks cell_and_pack) = [Num 1]
   \<and> (\<exists>c \<in> set (list_items CellModels cell_and_pack). idval c = Num 1)
   \<and> integrity cell_and_pack"
proof -
  have "reachable one_cell"
    unfolding one_cell_def by (rule reach_create [OF reach_empty])
  then have r: "reachable cell_and_pack"
    unfolding cell_and_pack_def by (rule reach_create)
  have p: "map (\<lambda>p. props p ''cellModelId'') (list_items BatteryPacks cell_and_pack) = [Num 1]"
    using cell_and_pack_packs by (simp add: list_items_def)
  then obtain x where x: "list_items BatteryPacks cell_and_pack = [x]"
      "props x ''cellModelId'' = Num 1"
    by (auto simp: map_eq_Cons_conv)
  from reachable_integrity [OF r] x
  have "\<exists>c \<in> set (list_items CellModels cell_and_pack). idval c = Num 1" by simp
  with reachable_integrity [OF r] r p show ?thesis by simp
qed

text \<open>
  C9. From any state, \<^verbatim>\<open>reset()\<close> returns without throwing and leaves the seeded store: the
  four keys are removed, \<^verbatim>\<open>initDB\<close> then finds no cell-model table and inserts the built-in
  dataset through the four \<^verbatim>\<open>create\<close> functions, cell models first, then cars, battery packs
  and junction rows (the order of \<open>loadInitialData\<close>), every foreign key of the dataset
  resolving. The tables then hold exactly 22 cell models, 28 cars, 21 battery packs and
  28 junction rows.
\<close>

theorem reset_restores_seed:
  "fst (reset s) = Inr ()
   \<and> snd (reset s) = seeded_store
   \<and> length (list_items CellModels (snd (reset s))) = 22
   \<and> length (list_items Cars (snd (reset s))) = 28
   \<and> length (list_items BatteryPacks (snd (reset s))) = 21
   \<and> length (list_items CarBatteryPacks (snd (reset s))) = 28"
proof -
  have "length (getTable CellModels (snd (loadInitialData empty_store))) = length [1..<23::nat]"
    by (metis loadInitialData_empty(2) length_map)
  moreover
  have "length (getTable Cars (snd (loadInitialData empty_store))) = length [1..<29::nat]"
    by (metis loadInitialData_empty(3) length_map)
  moreover
  have "length (getTable BatteryPacks (snd (loadInitialData empty_store))) = length [1..<22::nat]"
    by (metis loadInitialData_empty(4) length_map)
  moreover
  have "length (getTable CarBatteryPacks (snd (loadInitialData empty_store))) = length [1..<29::nat]"
    by (metis loadInitialData_empty(5) length_map)
  ultimately show ?thesis
    by (simp add: reset_eq seeded_store_eq loadInitialData_empty(1) list_items_def)
qed




text \<open>
  C7, as stated, fails where the input also carries a foreign key that does not resolve:
  \<^verbatim>\<open>batteryPacks.update\<close> validates \<^verbatim>\<open>cellModelId\<close> before it looks the record up, so on the
  empty store \<^verbatim>\<open>update(1, {cellModelId: 5})\<close> throws the validation failure, not the
  not-found one.
\<close>

theorem update_missing_invalid_fk_counterexample:
  "\<not> has_id BatteryPacks (Num 1) empty_store
   \<and> fst (update BatteryPacks (Num 1) (literal [(''cellModelId'', Num 5)]) empty_store)
       = Inl InvalidCellModelId
   \<and> failure_class InvalidCellModelId \<noteq> NotFoundError"
  by (simp add: update.simps batteryPacks_update_def validateFK_empty literal_def)

text \<open>
  C7, amended. For every table and every input, \<^verbatim>\<open>update(id, partialFields)\<close> fails, leaving
  the store as it was, whenever no record with identifier \<open>id\<close> exists. The failure is of
  the not-found class when every foreign key that the input supplies resolves (or the
  table has none); it is of the validation class when a supplied foreign key does not
  resolve, since the foreign keys are validated first.
\<close>

theorem update_missing_fails:
  "\<not> has_id t i s \<Longrightarrow>
     \<exists>e. update t i d s = (Inl e, s)
        \<and> failure_class e = (if fks_resolve t d s then NotFoundError else ValidationError)"
proof -
  assume h: "\<not> has_id t i s"
  show ?thesis
  proof (cases "fks_resolve t d s")
    case True
    from update_missing [OF True h] True show ?thesis by simp
  next
    case False
    from update_invalid [OF False, of i] False show ?thesis by simp
  qed
qed

theorem update_missing_fails_witness:
  "\<not> has_id BatteryPacks (Num 1) empty_store
   \<and> fks_resolve BatteryPacks (literal [(''name'', Str ''x'')]) empty_store
   \<and> \<not> fks_resolve BatteryPacks (literal [(''cellModelId'', Num 5)]) empty_store
   \<and> (\<exists>e. update BatteryPacks (Num 1) (literal [(''name'', Str ''x'')]) empty_store = (Inl e, empty_store)
          \<and> failure_class e = NotFoundError)
   \<and> (\<exists>e. update BatteryPacks (Num 1) (literal [(''cellModelId'', Num 5)]) empty_store = (Inl e, empty_store)
          \<and> failure_class e = ValidationError)"
proof -
  have h: "\<not> has_id BatteryPacks (Num 1) empty_store" by simp
  have a: "fks_resolve BatteryPacks (literal [(''name'', Str ''x'')]) empty_store"
    by (simp add: fks_resolve_simps validateFK_empty literal_def)
  have b: "\<not> fks_resolve BatteryPacks (literal [(''cellModelId'', Num 5)]) empty_store"
    by (simp add: fks_resolve_simps validateFK_empty literal_def)
  from update_missing_fails [OF h, of "literal [(''name'', Str ''x'')]"]
       update_missing_fails [OF h, of "literal [(''cellModelId'', Num 5)]"] h a b
  show ?thesis by simp
qed

text \<open>
  C1, as stated, fails for falsy supplied values: \<^verbatim>\<open>cellModels.create({nominalVoltage: 0})\<close>
  succeeds, and \<^verbatim>\<open>get\<close> of the returned id has \<^verbatim>\<open>nominalVoltage\<close> equal to \<^verbatim>\<open>null\<close>, where the merge of
  defaults and supplied fields has 0.
\<close>

theorem create_get_falsy_counterexample:
  "fks_resolve CellModels zero_volt empty_store
   \<and> fst (create CellModels zero_volt empty_store)
        = Inr \<lparr>item_id = 1, props = created_props CellModels zero_volt\<rparr>
   \<and> map_option (\<lambda>g. props g ''nominalVoltage'')
        (get_item CellModels (idval \<lparr>item_id = 1, props = created_props CellModels zero_volt\<rparr>)
           (snd (create CellModels zero_volt empty_store))) = Some Null
   \<and> spec_merge CellModels zero_volt ''nominalVoltage'' = Num 0"
proof -
  have r: "fks_resolve CellModels zero_volt empty_store" by (simp add: fks_resolve_simps)
  have e: "exact_ids CellModels empty_store" by (simp add: exact_ids_empty)
  have n: "getNextId CellModels empty_store = 1" by (simp add: getNextId_empty)
  note g = get_created [OF r e, unfolded n]
  note c = create_ok [OF r, unfolded n]
  have 1: "fst (create CellModels zero_volt empty_store)
        = Inr \<lparr>item_id = 1, props = created_props CellModels zero_volt\<rparr>"
    by (simp add: c)
  have 2: "map_option (\<lambda>g. props g ''nominalVoltage'')
        (get_item CellModels (idval \<lparr>item_id = 1, props = created_props CellModels zero_volt\<rparr>)
           (snd (create CellModels zero_volt empty_store))) = Some Null"
    unfolding g
    by (simp add: created_props_def created_value_def literal_def js_or_def zero_volt_def)
  have 3: "spec_merge CellModels zero_volt ''nominalVoltage'' = Num 0"
    by (simp add: spec_merge_def spec_defaults_def zero_volt_def literal_def)
  from r 1 2 3 show ?thesis by blast
qed

text \<open>
  C1, amended. For every table and every input object whose supplied foreign keys resolve,
  \<^verbatim>\<open>create\<close> succeeds and appends to the table one record, which has the returned id and
  which \<^verbatim>\<open>get\<close> of the returned id yields when the identifiers of the table are below
  \<open>2^53\<close> (so that the new one is fresh). In that record every field the table declares
  with a default holds the supplied value when that value is truthy (read back from JSON,
  so a non-finite number is \<^verbatim>\<open>null\<close>) and the declared default otherwise: the empty string
  for manufacturer, model, chemistry, name and brand, \<^verbatim>\<open>null\<close> for every numeric field, for
  \<^verbatim>\<open>cellModelId\<close> and for the text field trim. A falsy supplied value (0, the empty string,
  \<^verbatim>\<open>false\<close>, \<^verbatim>\<open>NaN\<close>, \<^verbatim>\<open>null\<close>) is replaced by the default. The two fields of a junction row have
  no default and are stored as supplied. The record has no other property. Where a
  supplied value is truthy and finite, the field agrees with the merge of defaults and
  supplied fields.
\<close>

theorem create_then_get:
  "fks_resolve t d s \<Longrightarrow>
     \<exists>r s' g. create t d s = (Inr r, s')
       \<and> list_items t s' = list_items t s @ [g]
       \<and> (exact_ids t s \<longrightarrow> get_item t (idval r) s' = Some g)
       \<and> item_id g = item_id r
       \<and> (\<forall>(k, dflt) \<in> set (declared_fields t).
            props g k = (case dflt of
                           Some v \<Rightarrow> if truthy (d k) then json_value (d k) else v
                         | None \<Rightarrow> d k))
       \<and> (\<forall>k. k \<notin> fst ` set (declared_fields t) \<longrightarrow> props g k = Undefined)
       \<and> (\<forall>(k, dflt) \<in> set (declared_fields t).
            truthy (d k) \<and> json_value (d k) = d k \<longrightarrow> props g k = spec_merge t d k)"
proof -
  assume ok: "fks_resolve t d s"
  let ?r = "\<lparr>item_id = getNextId t s, props = created_props t d\<rparr>"
  let ?g = "json_item ?r"
  have fields: "props ?g k = (case dflt of
                           Some v \<Rightarrow> if truthy (d k) then json_value (d k) else v
                         | None \<Rightarrow> d k)" if kd: "(k, dflt) \<in> set (declared_fields t)" for k dflt
  proof (cases dflt)
    case None
    with kd have t: "t = CarBatteryPacks" by (cases t) auto
    with kd have "k = ''carId'' \<or> k = ''batteryPackId''" by auto
    with ok t have "json_value (d k) = d k"
      by (auto simp: fks_resolve_simps validateFK_json)
    with None show ?thesis
      by (simp add: created_props_declared [OF kd] created_value_def)
  next
    case (Some v)
    with kd have "json_value v = v" by (cases t) auto
    with Some show ?thesis
      by (simp add: created_props_declared [OF kd] created_value_def js_or_def)
  qed
  have others: "props ?g k = Undefined" if "k \<notin> fst ` set (declared_fields t)" for k
    using created_props_undeclared [OF that] by simp
  have merge: "props ?g k = spec_merge t d k"
    if kd: "(k, dflt) \<in> set (declared_fields t)" and tr: "truthy (d k)" and js: "json_value (d k) = d k"
    for k dflt
  proof -
    from tr have nu: "d k \<noteq> Undefined" by auto
    from kd have "map_of (spec_defaults t) k \<noteq> None"
      by (cases t) (auto simp: spec_defaults_def)
    with nu have "spec_merge t d k = d k" by (auto simp: spec_merge_def)
    moreover from fields [OF kd] tr js have "props ?g k = d k"
      by (cases dflt) auto
    ultimately show ?thesis by simp
  qed
  have tab: "list_items t (snd (create t d s)) = list_items t s @ [?g]"
    by (simp add: list_items_def create_table [OF ok])
  have get: "exact_ids t s \<longrightarrow> get_item t (idval ?r) (snd (create t d s)) = Some ?g"
    using get_created [OF ok] by simp
  from create_ok [OF ok] have c: "create t d s = (Inr ?r, snd (create t d s))" by simp
  from c tab get fields others merge
  show ?thesis by (intro exI [of _ ?r] exI [of _ "snd (create t d s)"] exI [of _ ?g]) auto
qed

theorem create_then_get_witness:
  "fks_resolve BatteryPacks sample_pack one_cell
   \<and> exact_ids BatteryPacks one_cell
   \<and> (\<exists>r s' g. create BatteryPacks sample_pack one_cell = (Inr r, s')
         \<and> list_items BatteryPacks s' = list_items BatteryPacks one_cell @ [g]
         \<and> get_item BatteryPacks (idval r) s' = Some g
         \<and> item_id g = item_id r
         \<and> props g ''name'' = Str ''P''
         \<and> props g ''cellCount'' = Null
         \<and> props g ''totalCapacityKwh'' = Null
         \<and> props g ''cellModelId'' = Num 1
         \<and> props g ''brand'' = Undefined
         \<and> props g ''name'' = spec_merge BatteryPacks sample_pack ''name'')"
proof -
  have "getTable BatteryPacks one_cell = []" by (simp add: one_cell_def create_other)
  then have e: "exact_ids BatteryPacks one_cell" by (rule exact_ids_empty)
  from create_then_get [OF sample_pack_resolves]
  obtain r s' g where c: "create BatteryPacks sample_pack one_cell = (Inr r, s')"
    and l: "list_items BatteryPacks s' = list_items BatteryPacks one_cell @ [g]"
    and gi: "exact_ids BatteryPacks one_cell \<longrightarrow> get_item BatteryPacks (idval r) s' = Some g"
    and g: "item_id g = item_id r"
    and f: "\<forall>(k, dflt) \<in> set (declared_fields BatteryPacks).
            props g k = (case dflt of
                           Some v \<Rightarrow> if truthy (sample_pack k) then json_value (sample_pack k) else v
                         | None \<Rightarrow> sample_pack k)"
    and u: "\<forall>k. k \<notin> fst ` set (declared_fields BatteryPacks) \<longrightarrow> props g k = Undefined"
    and m: "\<forall>(k, dflt) \<in> set (declared_fields BatteryPacks).
            truthy (sample_pack k) \<and> json_value (sample_pack k) = sample_pack k
              \<longrightarrow> props g k = spec_merge BatteryPacks sample_pack k"
    by blast
  from gi e have gg: "get_item BatteryPacks (idval r) s' = Some g" by simp
  from f have 1: "props g ''name'' = Str ''P''" "props g ''cellCount'' = Null"
    "props g ''totalCapacityKwh'' = Null" "props g ''cellModelId'' = Num 1"
    by (simp_all add: sample_pack_def literal_def)
  from u have 2: "props g ''brand'' = Undefined" by simp
  from m have 3: "props g ''name'' = spec_merge BatteryPacks sample_pack ''name''"
    by (simp add: sample_pack_def literal_def)
  from sample_pack_resolves e c l gg g 1 2 3 show ?thesis by blast
qed

text \<open>
  C2, as stated, fails for the value \<^verbatim>\<open>undefined\<close>, which is not among the ids of
  \<^verbatim>\<open>cellModels.list()\<close>: \<^verbatim>\<open>validateFK\<close> accepts it as it accepts \<^verbatim>\<open>null\<close>, so
  \<^verbatim>\<open>batteryPacks.create({cellModelId: undefined})\<close> succeeds and stores \<^verbatim>\<open>null\<close>.
\<close>

theorem pack_create_absent_cell_counterexample:
  "Undefined \<notin> idval ` set (list_items CellModels empty_store)
   \<and> fst (batteryPacks_create absent_cell empty_store)
       = Inr \<lparr>item_id = 1, props = created_props BatteryPacks absent_cell\<rparr>
   \<and> created_props BatteryPacks absent_cell ''cellModelId'' = Null"
proof -
  have r: "fks_resolve BatteryPacks absent_cell empty_store"
    by (simp add: fks_resolve_simps absent_cell_def literal_def)
  have n: "getNextId BatteryPacks empty_store = 1" by (simp add: getNextId_empty)
  from create_ok [OF r, unfolded n create.simps]
  have "fst (batteryPacks_create absent_cell empty_store)
       = Inr \<lparr>item_id = 1, props = created_props BatteryPacks absent_cell\<rparr>" by simp
  moreover have "created_props BatteryPacks absent_cell ''cellModelId'' = Null"
    by (simp add: created_props_def created_value_def literal_def js_or_def absent_cell_def)
  ultimately show ?thesis by (simp add: list_items_def)
qed

text \<open>
  C2, amended. \<^verbatim>\<open>batteryPacks.create({cellModelId: X, ...})\<close> fails with the validation-class
  failure, leaving the store as it was, for every \<open>X\<close> other than \<^verbatim>\<open>null\<close> and \<^verbatim>\<open>undefined\<close>
  that is not among the ids of \<^verbatim>\<open>cellModels.list()\<close>; it succeeds when \<open>X\<close> is \<^verbatim>\<open>null\<close> or
  \<^verbatim>\<open>undefined\<close> (the property absent), the returned record and the record appended to the
  table having \<^verbatim>\<open>cellModelId\<close> equal to \<^verbatim>\<open>null\<close>; \<^verbatim>\<open>get\<close> of the returned id yields that record
  when the identifiers of the table are below \<open>2^53\<close>.
\<close>

theorem pack_create_validates_cell:
  "d ''cellModelId'' = X \<Longrightarrow>
     (X \<noteq> Null \<and> X \<noteq> Undefined \<and> X \<notin> idval ` set (list_items CellModels s)
        \<longrightarrow> batteryPacks_create d s = (Inl InvalidCellModelId, s)
            \<and> failure_class InvalidCellModelId = ValidationError)
   \<and> (X = Null \<or> X = Undefined
        \<longrightarrow> (\<exists>r s' g. batteryPacks_create d s = (Inr r, s')
               \<and> props r ''cellModelId'' = Null
               \<and> list_items BatteryPacks s' = list_items BatteryPacks s @ [g]
               \<and> (exact_ids BatteryPacks s
                    \<longrightarrow> get_item BatteryPacks (idval r) s' = Some g)
               \<and> props g ''cellModelId'' = Null))"
proof (intro conjI impI)
  assume "d ''cellModelId'' = X"
    and "X \<noteq> Null \<and> X \<noteq> Undefined \<and> X \<notin> idval ` set (list_items CellModels s)"
  then have "\<not> validateFK (d ''cellModelId'') CellModels s"
    by (simp add: validateFK_iff list_items_def)
  then show "batteryPacks_create d s = (Inl InvalidCellModelId, s)"
    by (simp add: batteryPacks_create_def)
next
  show "failure_class InvalidCellModelId = ValidationError" by simp
next
  assume x: "d ''cellModelId'' = X" and n: "X = Null \<or> X = Undefined"
  then have ok: "fks_resolve BatteryPacks d s"
    by (auto simp: fks_resolve_simps validateFK_def)
  let ?r = "\<lparr>item_id = getNextId BatteryPacks s, props = created_props BatteryPacks d\<rparr>"
  from x n have p: "created_props BatteryPacks d ''cellModelId'' = Null"
    by (auto simp: created_props_def created_value_def literal_def js_or_def)
  have tab: "list_items BatteryPacks (snd (create BatteryPacks d s))
      = list_items BatteryPacks s @ [json_item ?r]"
    by (simp add: list_items_def create_table [OF ok])
  have get: "exact_ids BatteryPacks s
      \<longrightarrow> get_item BatteryPacks (idval ?r) (snd (create BatteryPacks d s)) = Some (json_item ?r)"
    using get_created [OF ok] by simp
  from create_ok [OF ok]
  have c: "batteryPacks_create d s = (Inr ?r, snd (create BatteryPacks d s))"
    by (simp add: create.simps)
  from c tab get p
  show "\<exists>r s' g. batteryPacks_create d s = (Inr r, s')
               \<and> props r ''cellModelId'' = Null
               \<and> list_items BatteryPacks s' = list_items BatteryPacks s @ [g]
               \<and> (exact_ids BatteryPacks s
                    \<longrightarrow> get_item BatteryPacks (idval r) s' = Some g)
               \<and> props g ''cellModelId'' = Null"
    by (intro exI [of _ ?r] exI [of _ "snd (create BatteryPacks d s)"] exI [of _ "json_item ?r"])
       simp
qed

theorem pack_create_validates_cell_witness:
  "bad_cell ''cellModelId'' = Num 7
   \<and> Num 7 \<notin> idval ` set (list_items CellModels empty_store)
   \<and> batteryPacks_create bad_cell empty_store = (Inl InvalidCellModelId, empty_store)
   \<and> null_cell ''cellModelId'' = Null
   \<and> exact_ids BatteryPacks empty_store
   \<and> (\<exists>r s' g. batteryPacks_create null_cell empty_store = (Inr r, s')
               \<and> props r ''cellModelId'' = Null
               \<and> list_items BatteryPacks s' = list_items BatteryPacks empty_store @ [g]
               \<and> get_item BatteryPacks (idval r) s' = Some g
               \<and> props g ''cellModelId'' = Null)"
proof -
  have b: "bad_cell ''cellModelId'' = Num 7" by (simp add: bad_cell_def literal_def)
  have n: "null_cell ''cellModelId'' = Null" by (simp add: null_cell_def literal_def)
  have e: "Num 7 \<notin> idval ` set (list_items CellModels empty_store)"
    by (simp add: list_items_def)
  have x: "exact_ids BatteryPacks empty_store" by (simp add: exact_ids_empty)
  from pack_create_validates_cell [where d = bad_cell and X = "Num 7" and s = empty_store]
       pack_create_validates_cell [where d = null_cell and X = Null and s = empty_store] b n e x
  show ?thesis by simp
qed



text \<open>
  C3, as stated, fails for the value \<^verbatim>\<open>null\<close> in a reachable state. After
  \<^verbatim>\<open>batteryPacks.create({})\<close> on the empty medium the one battery pack has \<^verbatim>\<open>cellModelId\<close>
  equal to \<^verbatim>\<open>null\<close>, and \<^verbatim>\<open>cellModels.remove(null)\<close> throws the conflict failure. Once that
  battery pack is removed, no battery pack refers to \<^verbatim>\<open>null\<close>, yet
  \<^verbatim>\<open>cellModels.remove(null)\<close> does not succeed: it throws "Cell model not found".
\<close>

theorem cell_remove_null_counterexample:
  "reachable pack_without_cell
   \<and> map (\<lambda>p. props p ''cellModelId'') (list_items BatteryPacks pack_without_cell) = [Null]
   \<and> cellModels_remove Null pack_without_cell = (Inl CellModelReferenced, pack_without_cell)
   \<and> fst (batteryPacks_remove (Num 1) pack_without_cell) = Inr True
   \<and> list_items BatteryPacks (remove_packs [Num 1] pack_without_cell) = []
   \<and> fst (cellModels_remove Null (remove_packs [Num 1] pack_without_cell))
       = Inl CellModelNotFound"
proof -
  have r: "reachable pack_without_cell"
    unfolding pack_without_cell_def by (rule reach_create [OF reach_empty])
  have f: "map (\<lambda>p. props p ''cellModelId'') (list_items BatteryPacks pack_without_cell) = [Null]"
    using pack_without_cell_fk by (simp add: list_items_def)
  then obtain x where "list_items BatteryPacks pack_without_cell = [x]"
      and "props x ''cellModelId'' = Null"
    by (auto simp: map_eq_Cons_conv)
  then have c: "cellModels_remove Null pack_without_cell
      = (Inl CellModelReferenced, pack_without_cell)"
    by (simp add: cellModels_remove_def strict_eq_def)
  have g: "list_items BatteryPacks (remove_packs [Num 1] pack_without_cell) = []"
    using pack_without_cell_removed(2) by (simp add: list_items_def)
  have n: "fst (cellModels_remove Null (remove_packs [Num 1] pack_without_cell))
       = Inl CellModelNotFound"
    using pack_without_cell_removed(2,3)
    by (simp add: cellModels_remove_def list_items_def del: remove_packs.simps)
  from r f c pack_without_cell_removed(1) g n show ?thesis by simp
qed

text \<open>
  C3, amended. In every state in which some battery pack has \<^verbatim>\<open>cellModelId\<close> equal to \<open>i\<close>,
  \<^verbatim>\<open>cellModels.remove(i)\<close> throws the conflict-class failure and leaves the store as it was.
  From such a state, when it is reachable and \<open>i\<close> is an identifier (neither \<^verbatim>\<open>null\<close> nor
  \<^verbatim>\<open>undefined\<close>), and from any state that has a cell model with identifier \<open>i\<close>: once
  battery packs have been removed, in any number and order, so that no battery pack
  refers to \<open>i\<close> any more, \<^verbatim>\<open>cellModels.remove(i)\<close> returns \<^verbatim>\<open>true\<close>, the cell model is gone
  and the other tables are as they were.
\<close>

theorem cell_remove_guard:
  "((\<exists>p \<in> set (list_items BatteryPacks s). strict_eq (props p ''cellModelId'') i)
      \<longrightarrow> cellModels_remove i s = (Inl CellModelReferenced, s)
          \<and> failure_class CellModelReferenced = ConflictError)
   \<and> (has_id CellModels i s
        \<or> (reachable s \<and> fk_present i
            \<and> (\<exists>p \<in> set (list_items BatteryPacks s). strict_eq (props p ''cellModelId'') i))
      \<longrightarrow> \<not> (\<exists>p \<in> set (list_items BatteryPacks (remove_packs ps s)).
               strict_eq (props p ''cellModelId'') i)
      \<longrightarrow> fst (cellModels_remove i (remove_packs ps s)) = Inr True
          \<and> \<not> has_id CellModels i (snd (cellModels_remove i (remove_packs ps s)))
          \<and> (\<forall>t. t \<noteq> CellModels \<longrightarrow>
                list_items t (snd (cellModels_remove i (remove_packs ps s)))
                  = list_items t (remove_packs ps s)))"
proof (intro conjI impI allI)
  assume "\<exists>p \<in> set (list_items BatteryPacks s). strict_eq (props p ''cellModelId'') i"
  then show "cellModels_remove i s = (Inl CellModelReferenced, s)"
    by (simp add: cellModels_remove_def list_ex_iff)
next
  show "failure_class CellModelReferenced = ConflictError" by simp
next
  assume g: "has_id CellModels i s
        \<or> (reachable s \<and> fk_present i
            \<and> (\<exists>p \<in> set (list_items BatteryPacks s). strict_eq (props p ''cellModelId'') i))"
    and n: "\<not> (\<exists>p \<in> set (list_items BatteryPacks (remove_packs ps s)).
               strict_eq (props p ''cellModelId'') i)"
  let ?s = "remove_packs ps s"
  from g have h: "has_id CellModels i s"
  proof
    assume "has_id CellModels i s"
    then show ?thesis .
  next
    assume a: "reachable s \<and> fk_present i
            \<and> (\<exists>p \<in> set (list_items BatteryPacks s). strict_eq (props p ''cellModelId'') i)"
    then obtain p where p: "p \<in> set (list_items BatteryPacks s)" "props p ''cellModelId'' = i"
      by (auto simp: strict_eq_def)
    from a have "integrity s" by (simp add: integrity_reachable)
    with p a show ?thesis by (auto simp: integrity_def)
  qed
  then have h': "has_id CellModels i ?s" by (simp add: has_id_iff remove_packs_cells)
  from n have r: "\<not> is_referenced CellModels i ?s"
    by (simp add: is_referenced_simps list_ex_iff list_items_def)
  from remove_ok [OF r h'] show "fst (cellModels_remove i ?s) = Inr True"
    by (simp add: remove.simps)
  from remove_ok_gone [OF r h'] show "\<not> has_id CellModels i (snd (cellModels_remove i ?s))"
    by (simp add: remove.simps)
  fix t assume "t \<noteq> CellModels"
  then show "list_items t (snd (cellModels_remove i ?s)) = list_items t ?s"
    using remove_other [of t CellModels i ?s] by (simp add: remove.simps list_items_def)
qed

theorem cell_remove_guard_witness:
  "reachable cell_and_pack \<and> fk_present (Num 1)
   \<and> map (\<lambda>p. props p ''cellModelId'') (list_items BatteryPacks cell_and_pack) = [Num 1]
   \<and> cellModels_remove (Num 1) cell_and_pack = (Inl CellModelReferenced, cell_and_pack)
   \<and> list_items BatteryPacks (remove_packs [Num 1] cell_and_pack) = []
   \<and> fst (cellModels_remove (Num 1) (remove_packs [Num 1] cell_and_pack)) = Inr True
   \<and> \<not> has_id CellModels (Num 1)
         (snd (cellModels_remove (Num 1) (remove_packs [Num 1] cell_and_pack)))"
proof -
  have p: "map (\<lambda>p. props p ''cellModelId'') (list_items BatteryPacks cell_and_pack) = [Num 1]"
    using cell_and_pack_packs by (simp add: list_items_def)
  then obtain x where "list_items BatteryPacks cell_and_pack = [x]"
      and "props x ''cellModelId'' = Num 1"
    by (auto simp: map_eq_Cons_conv)
  then have e: "\<exists>p \<in> set (list_items BatteryPacks cell_and_pack).
                 strict_eq (props p ''cellModelId'') (Num 1)"
    by (simp add: strict_eq_def)
  have g: "list_items BatteryPacks (remove_packs [Num 1] cell_and_pack) = []"
    using cell_and_pack_removed by (simp add: list_items_def)
  have "reachable one_cell"
    unfolding one_cell_def by (rule reach_create [OF reach_empty])
  then have r: "reachable cell_and_pack"
    unfolding cell_and_pack_def by (rule reach_create)
  have f: "fk_present (Num 1)" by (simp add: fk_present_def)
  from cell_remove_guard [of cell_and_pack "Num 1" "[Num 1]"] r f p e g
  show ?thesis by simp
qed

text \<open>
  C6. For every table, identifier \<open>i\<close>, property name \<open>f\<close> and value \<open>v\<close>,
  \<^verbatim>\<open>update(i, {f: v})\<close> leaves every other table as it was and the table it is called on
  with the same number of records; each record keeps its identifier and every property
  other than \<open>f\<close>; and the only record that can differ from its value before the call
  is the one \<^verbatim>\<open>findIndex\<close> finds for \<open>i\<close>, in a call that returns the updated record.
\<close>

theorem update_changes_one_field:
  "(\<forall>t'. t' \<noteq> t \<longrightarrow>
        list_items t' (snd (update t i (literal [(f, v)]) s)) = list_items t' s)
   \<and> length (list_items t (snd (update t i (literal [(f, v)]) s))) = length (list_items t s)
   \<and> (\<forall>j < length (list_items t s).
         item_id (list_items t (snd (update t i (literal [(f, v)]) s)) ! j)
           = item_id (list_items t s ! j)
       \<and> (\<forall>k. k \<noteq> f \<longrightarrow>
             props (list_items t (snd (update t i (literal [(f, v)]) s)) ! j) k
               = props (list_items t s ! j) k)
       \<and> (list_items t (snd (update t i (literal [(f, v)]) s)) ! j \<noteq> list_items t s ! j
             \<longrightarrow> findIndex (\<lambda>item. strict_eq (idval item) i) (list_items t s) = Some j
                 \<and> fst (update t i (literal [(f, v)]) s)
                     = Inr ((list_items t s ! j)
                             \<lparr>props := updated_props t (literal [(f, v)]) (list_items t s ! j)\<rparr>)))"
proof -
  let ?d = "literal [(f, v)]"
  let ?s' = "snd (update t i ?d s)"
  let ?xs = "getTable t s"
  have other: "\<forall>t'. t' \<noteq> t \<longrightarrow> list_items t' ?s' = list_items t' s"
    by (simp add: list_items_def update_other)
  show ?thesis
  proof (cases "fks_resolve t ?d s \<and> has_id t i s")
    case False
    then have "?s' = s" by (rule update_unchanged)
    then show ?thesis by simp
  next
    case True
    then obtain j0 where j0: "findIndex (\<lambda>item. strict_eq (idval item) i) ?xs = Some j0"
      by (auto simp: has_id_findIndex)
    from True have ok: "fks_resolve t ?d s" by simp
    let ?old = "?xs ! j0"
    let ?new = "json_item (?old\<lparr>props := updated_props t ?d ?old\<rparr>)"
    from findIndex_Some [OF j0] have j0l: "j0 < length ?xs" by simp
    then have old: "?old \<in> set ?xs" by simp
    have tab: "getTable t ?s' = ?xs[j0 := ?new]" by (rule update_table [OF ok j0])
    have keep: "props ?new k = props ?old k" if "k \<noteq> f" for k
      using that getTable_props_json [OF old, of k]
      by (simp add: updated_props_def literal_single)
    have rows: "item_id (getTable t ?s' ! j) = item_id (?xs ! j)
       \<and> (\<forall>k. k \<noteq> f \<longrightarrow> props (getTable t ?s' ! j) k = props (?xs ! j) k)
       \<and> (getTable t ?s' ! j \<noteq> ?xs ! j
             \<longrightarrow> findIndex (\<lambda>item. strict_eq (idval item) i) ?xs = Some j
                 \<and> fst (update t i ?d s) = Inr ((?xs ! j)\<lparr>props := updated_props t ?d (?xs ! j)\<rparr>))"
      if "j < length ?xs" for j
    proof (cases "j = j0")
      case True
      with j0 j0l keep show ?thesis
        by (simp add: tab update_ok [OF ok j0])
    next
      case False
      then show ?thesis by (simp add: tab)
    qed
    from other rows show ?thesis by (simp add: list_items_def tab)
  qed
qed

theorem update_changes_one_field_witness:
  "length (list_items CellModels one_cell) = 1
   \<and> props (list_items CellModels one_cell ! 0) ''model'' = Str ''''
   \<and> props (list_items CellModels (snd (update CellModels (Num 1) rename_model one_cell)) ! 0)
        ''model'' = Str ''M''
   \<and> props (list_items CellModels (snd (update CellModels (Num 1) rename_model one_cell)) ! 0)
        ''manufacturer'' = props (list_items CellModels one_cell ! 0) ''manufacturer''
   \<and> item_id (list_items CellModels (snd (update CellModels (Num 1) rename_model one_cell)) ! 0)
        = item_id (list_items CellModels one_cell ! 0)
   \<and> list_items BatteryPacks (snd (update CellModels (Num 1) rename_model one_cell))
        = list_items BatteryPacks one_cell"
proof -
  have l: "length (list_items CellModels one_cell) = 1"
    by (simp add: list_items_def one_cell_table)
  have a: "props (list_items CellModels one_cell ! 0) ''model'' = Str ''''"
    by (simp add: list_items_def one_cell_table created_props_def created_value_def literal_def
          js_or_def)
  have b: "props (list_items CellModels (snd (update CellModels (Num 1) rename_model one_cell)) ! 0)
        ''model'' = Str ''M''"
    unfolding list_items_def one_cell_renamed
    by (simp add: updated_props_def rename_model_def literal_def)
  note th = update_changes_one_field
    [where t = CellModels and i = "Num 1" and f = "''model''" and v = "Str ''M''"
       and s = one_cell, folded rename_model_def]
  from th have o: "list_items BatteryPacks (snd (update CellModels (Num 1) rename_model one_cell))
        = list_items BatteryPacks one_cell" by simp
  from th l have r: "item_id (list_items CellModels (snd (update CellModels (Num 1) rename_model one_cell)) ! 0)
        = item_id (list_items CellModels one_cell ! 0)
    \<and> (\<forall>k. k \<noteq> ''model'' \<longrightarrow>
          props (list_items CellModels (snd (update CellModels (Num 1) rename_model one_cell)) ! 0) k
            = props (list_items CellModels one_cell ! 0) k)" by simp
  then have m: "props (list_items CellModels (snd (update CellModels (Num 1) rename_model one_cell)) ! 0)
        ''manufacturer'' = props (list_items CellModels one_cell ! 0) ''manufacturer''" by simp
  from l a b m r o show ?thesis by simp
qed

end
